theory Spec2Isabelle
  imports Main "HOL-Library.Word" "HOL-Library.Sublist"
begin

section \<open>C strings\<close>

text \<open>
  A C string is modelled by the list of its bytes before the terminating NUL; the
  terminator itself is not stored.  A list is a well-formed C string when it holds no
  NUL byte (\<open>cstring\<close>).  \<open>char_at s i\<close> is the C expression \<open>s[i]\<close>: the byte at
  index \<open>i\<close> of the string, the terminator at index \<open>strlen s\<close>.  The source never
  reads past the terminator on the paths modelled here, except where a definition
  says so.
\<close>

definition NUL :: char where
  "NUL = CHR 0x00"

definition cstring :: "string \<Rightarrow> bool" where
  "cstring s = (NUL \<notin> set s)"

definition strlen :: "string \<Rightarrow> nat" where
  "strlen s = length s"

definition char_at :: "string \<Rightarrow> nat \<Rightarrow> char" where
  "char_at s i = (if i < length s then s ! i else NUL)"

text \<open>
  \<open>strncmp s1 s2 n\<close> compares at most \<open>n\<close> bytes and stops at a terminator; the
  result is the difference of the first pair of bytes that differ (read as
  unsigned char), and zero when there is none.
\<close>

fun strncmp :: "string \<Rightarrow> string \<Rightarrow> nat \<Rightarrow> int" where
  "strncmp s1 s2 0 = 0"
| "strncmp [] [] (Suc n) = 0"
| "strncmp [] (c2 # s2) (Suc n) = - int (of_char c2)"
| "strncmp (c1 # s1) [] (Suc n) = int (of_char c1)"
| "strncmp (c1 # s1) (c2 # s2) (Suc n) =
     (if c1 = c2 then strncmp s1 s2 n else int (of_char c1) - int (of_char c2))"

definition strcmp :: "string \<Rightarrow> string \<Rightarrow> int" where
  "strcmp s1 s2 = strncmp s1 s2 (Suc (max (length s1) (length s2)))"

section \<open>bru: global variables and path routing\<close>

text \<open>
  The global variables of \<open>bru.c\<close>: the two directory descriptors and the list of
  paths that go to the alternate directory, with its length and the lengths of its
  items.
\<close>

record globals =
  mount_fd :: int
  alt_fd :: int
  alt_files :: "string list"
  alt_file_count :: nat
  alt_file_lens :: "nat list"

text \<open>
  The test at the heart of the macros \<open>CHDIR_REF\<close> and \<open>GET_FD_REF\<close>:
  \<open>strncmp(alt_files[i], path, alt_file_lens[i]) == 0 &&
   (path[alt_file_lens[i]] == '\0' || path[alt_file_lens[i]] == '/')\<close>.
  The second conjunct is only evaluated when the first holds.
\<close>

definition alt_hit :: "globals \<Rightarrow> string \<Rightarrow> nat \<Rightarrow> bool" where
  "alt_hit g path i =
     (if strncmp (alt_files g ! i) path (alt_file_lens g ! i) = 0
      then char_at path (alt_file_lens g ! i) = NUL
         \<or> char_at path (alt_file_lens g ! i) = CHR ''/''
      else False)"

text \<open>
  The loop \<open>for (i=0; i < alt_file_count; i++) { if (...) { ...; break; } }\<close> of both
  macros, started at index \<open>i\<close>: whether it finds an item that matches.
\<close>

function alt_scan :: "globals \<Rightarrow> string \<Rightarrow> nat \<Rightarrow> bool" where
  "alt_scan g path i =
     (if i < alt_file_count g
      then (if alt_hit g path i then True else alt_scan g path (i + 1))
      else False)"
  by pat_completeness auto
termination
  by (relation "measure (\<lambda>(g, path, i). alt_file_count g - i)") auto

declare alt_scan.simps [simp del]

text \<open>\<open>GET_FD_REF(path, fd, i)\<close>: the descriptor the path is routed to.\<close>

definition get_fd_ref :: "globals \<Rightarrow> string \<Rightarrow> int" where
  "get_fd_ref g path = (if alt_scan g path 0 then alt_fd g else mount_fd g)"

text \<open>
  \<open>MAKE_RELATIVE(path)\<close>: \<open>path = (path[1] == '\0') ? "." : path+1\<close>.  The paths FUSE
  hands over start with a slash, so \<open>path[1]\<close> is within the string or its terminator.
\<close>

definition make_relative :: "string \<Rightarrow> string" where
  "make_relative path = (if char_at path 1 = NUL then ''.'' else drop 1 path)"

text \<open>
  The state of the table after a successful start (see \<open>bru_main\<close> below): the count is
  the number of items and the lengths are those of the items.
\<close>

definition table_ok :: "globals \<Rightarrow> bool" where
  "table_ok g = (alt_file_count g = length (alt_files g)
               \<and> alt_file_lens g = map strlen (alt_files g))"

section \<open>bru: the process and the kernel\<close>

text \<open>
  The filesystem operations of \<open>bru.c\<close> talk to the kernel.  Each call the source
  makes is an event (\<open>call\<close>) carrying its arguments; the kernel is any function
  from the calls made so far and the present call to an answer, so a theorem about
  an operation holds for whatever the kernel answers.  The process state is the
  list of the calls made so far and \<open>errno\<close>, which a failing call sets and a
  succeeding call leaves alone.  \<open>Filler\<close> is the FUSE callback that \<open>bru_readdir\<close>
  hands each name to.
\<close>

record stat =
  st_dev :: nat
  st_ino :: nat
  st_mode :: nat

text \<open>
  The optional last argument of the variadic \<open>openat\<close>: absent, a mode, or whatever
  else the caller wrote there.
\<close>

datatype vararg = NoArg | ModeArg nat | StatArg stat

datatype call =
    Setegid nat
  | Seteuid nat
  | Fchdir int
  | Lstat string
  | Readlink string nat
  | Renameat int string int string
  | Unlinkat int string int
  | Fstatat int string int
  | Openat int string int vararg
  | Read int nat
  | Write int string
  | Close int
  | Open string int
  | Creat string nat
  | Pread int nat int
  | Pwrite int string int
  | Fsync int
  | Fdatasync int
  | Ftruncate int int
  | Fstat int
  | Opendir string
  | Closedir
  | Filler string

text \<open>
  An answer of the kernel: a failure with the error number it leaves in \<open>errno\<close>,
  a return value, the bytes it placed in the caller's buffer, a filled
  \<open>struct stat\<close>, or an open directory stream with the names \<open>readdir\<close> will
  yield from it.
\<close>

datatype answer =
    Fail int
  | Ret int
  | Bytes string
  | StatBuf stat
  | Entries "string list"

type_synonym kernel = "call list \<Rightarrow> call \<Rightarrow> answer"

record proc =
  trace :: "call list"
  errno :: int

definition sys :: "kernel \<Rightarrow> call \<Rightarrow> proc \<Rightarrow> answer \<times> proc" where
  "sys k c p =
     (k (trace p) c,
      \<lparr>trace = trace p @ [c],
       errno = (case k (trace p) c of Fail e \<Rightarrow> e | _ \<Rightarrow> errno p)\<rparr>)"

text \<open>The value a call returns: \<open>-1\<close> on failure.\<close>

definition ret_of :: "answer \<Rightarrow> int" where
  "ret_of a = (case a of Fail e \<Rightarrow> - 1 | Ret v \<Rightarrow> v | _ \<Rightarrow> 0)"

text \<open>
  For \<open>read\<close> and \<open>readlink\<close> into a buffer of \<open>n\<close> bytes: the bytes placed in the
  buffer (never more than \<open>n\<close>) and the count returned.
\<close>

definition bytes_of :: "nat \<Rightarrow> answer \<Rightarrow> string" where
  "bytes_of n a = (case a of Bytes s \<Rightarrow> take n s | _ \<Rightarrow> [])"

definition count_of :: "nat \<Rightarrow> answer \<Rightarrow> int" where
  "count_of n a = (case a of Fail e \<Rightarrow> - 1 | _ \<Rightarrow> int (length (bytes_of n a)))"

definition dir_of :: "answer \<Rightarrow> string list option" where
  "dir_of a = (case a of Entries names \<Rightarrow> Some names | _ \<Rightarrow> None)"

text \<open>The error numbers and flags of Linux that the source names.\<close>

definition ENOENT :: int where "ENOENT = 2"
definition EACCES :: int where "EACCES = 13"
definition EXDEV :: int where "EXDEV = 18"
definition O_RDONLY :: int where "O_RDONLY = 0"
definition O_WRONLY :: int where "O_WRONLY = 1"
definition O_CREAT :: int where "O_CREAT = 64"
definition O_TRUNC :: int where "O_TRUNC = 512"
definition AT_SYMLINK_NOFOLLOW :: int where "AT_SYMLINK_NOFOLLOW = 256"

text \<open>
  The request context and the per-file handle object of FUSE.  The source itself
  notes that \<open>fh\<close> is a \<open>uint64_t\<close>.
\<close>

record fuse_context =
  uid :: nat
  gid :: nat

record fuse_file_info =
  flags :: int
  fh :: "64 word"

text \<open>
  \<open>fi->fh\<close> where an \<open>int\<close> descriptor is expected: the conversion of a \<open>uint64_t\<close>
  to \<open>int\<close> keeps the low 32 bits, read in two's complement.
\<close>

definition fd_of_fh :: "64 word \<Rightarrow> int" where
  "fd_of_fh h = sint (ucast h :: 32 word)"

text \<open>
  The convention of the system calls: a failing call leaves a positive error number,
  and a value returned is not negative and fits an \<open>int\<close>.
\<close>

definition posix_kernel :: "kernel \<Rightarrow> bool" where
  "posix_kernel k =
     (\<forall>t c. case k t c of Fail e \<Rightarrow> 0 < e | Ret v \<Rightarrow> 0 \<le> v \<and> v < 2 ^ 31 | _ \<Rightarrow> True)"

text \<open>\<open>SET_CALLER_UID()\<close>: both results are ignored.\<close>

definition set_caller_uid :: "kernel \<Rightarrow> fuse_context \<Rightarrow> proc \<Rightarrow> proc" where
  "set_caller_uid k ctx p =
     snd (sys k (Seteuid (uid ctx)) (snd (sys k (Setegid (gid ctx)) p)))"

text \<open>\<open>SET_RET_ERRNO()\<close>: \<open>if(ret < 0) ret = -errno;\<close>\<close>

definition set_ret_errno :: "int \<Rightarrow> proc \<Rightarrow> int" where
  "set_ret_errno ret p = (if ret < 0 then - errno p else ret)"

text \<open>
  \<open>CHDIR_REF(path)\<close>: change to the mount point's directory, then to the alternate
  one if the path matches an item of the list.  \<open>Some r\<close> is the macro's
  \<open>return -errno\<close>, which leaves the enclosing operation with \<open>r\<close>.
\<close>

definition chdir_ref :: "globals \<Rightarrow> kernel \<Rightarrow> string \<Rightarrow> proc \<Rightarrow> int option \<times> proc" where
  "chdir_ref g k path p =
     (case sys k (Fchdir (mount_fd g)) p of (a, p1) \<Rightarrow>
        if ret_of a < 0 then (Some (- errno p1), p1)
        else if alt_scan g path 0
        then (case sys k (Fchdir (alt_fd g)) p1 of (b, p2) \<Rightarrow>
                if ret_of b < 0 then (Some (- errno p2), p2) else (None, p2))
        else (None, p1))"

section \<open>bru: the operations\<close>

text \<open>
  Every operation takes the global variables, the kernel, the request context and
  the process state, and returns its FUSE result with the new process state
  (and what it wrote through its pointer arguments).
\<close>

definition bru_getattr ::
  "globals \<Rightarrow> kernel \<Rightarrow> fuse_context \<Rightarrow> string \<Rightarrow> proc \<Rightarrow> int \<times> stat option \<times> proc" where
  "bru_getattr g k ctx path0 p0 =
     (let p1 = set_caller_uid k ctx p0; path = make_relative path0 in
      case chdir_ref g k path p1 of
        (Some r, p2) \<Rightarrow> (r, None, p2)
      | (None, p2) \<Rightarrow>
          (case sys k (Lstat path) p2 of (a, p3) \<Rightarrow>
             (set_ret_errno (ret_of a) p3,
              (case a of StatBuf st \<Rightarrow> Some st | _ \<Rightarrow> None), p3)))"

text \<open>
  A store \<open>buf[i] = c\<close> into a buffer: the new buffer, or an overrun when the index
  lies past the buffer's last byte.
\<close>

datatype buffer = Buffer string | Overrun nat

definition store :: "string \<Rightarrow> nat \<Rightarrow> char \<Rightarrow> buffer" where
  "store buf i c = (if i < length buf then Buffer (buf[i := c]) else Overrun i)"

text \<open>
  \<open>bru_readlink\<close>: \<open>buf\<close> is the caller's buffer of \<open>bufsize\<close> bytes.  The count
  \<open>readlink\<close> returns is not negative where it is compared with the unsigned
  \<open>bufsize\<close>.
\<close>

definition bru_readlink ::
  "globals \<Rightarrow> kernel \<Rightarrow> fuse_context \<Rightarrow> string \<Rightarrow> string \<Rightarrow> nat \<Rightarrow> proc
     \<Rightarrow> int \<times> buffer \<times> proc" where
  "bru_readlink g k ctx path0 buf bufsize p0 =
     (let p1 = set_caller_uid k ctx p0; path = make_relative path0 in
      case chdir_ref g k path p1 of
        (Some r, p2) \<Rightarrow> (r, Buffer buf, p2)
      | (None, p2) \<Rightarrow>
          (case sys k (Readlink path bufsize) p2 of (a, p3) \<Rightarrow>
             let bytes_read = count_of bufsize a;
                 buf1 = bytes_of bufsize a @ drop (length (bytes_of bufsize a)) buf
             in if bytes_read < 0 then (- errno p3, Buffer buf1, p3)
                else if nat bytes_read \<le> bufsize
                then (0, store buf1 (nat bytes_read) NUL, p3)
                else (0, Buffer buf1, p3)))"

text \<open>
  The copy loop of \<open>bru_rename\<close>: \<open>while (1) { read; ...; write; ... }\<close> with a
  buffer of 8192 bytes.  \<open>Some r\<close> in the result is a \<open>return r\<close> from inside the
  loop, \<open>None\<close> the \<open>break\<close> at the end of the file.  The loop runs for as long as
  the kernel keeps answering with data, so it is a partial function.
\<close>

partial_function (option) copy_loop ::
  "kernel \<Rightarrow> int \<Rightarrow> int \<Rightarrow> proc \<Rightarrow> (int option \<times> proc) option" where
  "copy_loop k old_path_fd new_path_fd p =
     (case sys k (Read old_path_fd 8192) p of (a, p1) \<Rightarrow>
        if count_of 8192 a < 0
        then (case sys k (Close old_path_fd) p1 of (c1, p2) \<Rightarrow>
              case sys k (Close new_path_fd) p2 of (c2, p3) \<Rightarrow>
                Some (Some (set_ret_errno (count_of 8192 a) p3), p3))
        else if count_of 8192 a = 0 then Some (None, p1)
        else (case sys k (Write new_path_fd (bytes_of 8192 a)) p1 of (b, p2) \<Rightarrow>
                if ret_of b < 0
                then (case sys k (Close old_path_fd) p2 of (c1, p3) \<Rightarrow>
                      case sys k (Close new_path_fd) p3 of (c2, p4) \<Rightarrow>
                        Some (Some (set_ret_errno (ret_of b) p4), p4))
                else copy_loop k old_path_fd new_path_fd p2))"

text \<open>
  \<open>bru_rename\<close>.  \<open>old_path_stat\<close> is a local variable without an initial value:
  \<open>uninit\<close> is what it holds when \<open>fstatat\<close> fails, whose result is not looked at.
  The call that creates the destination is
  \<open>openat(new_ref_fd, new_path, O_CREAT|O_WRONLY|O_TRUNC, old_path_stat)\<close>:
  its last argument is the structure.
\<close>

definition bru_rename ::
  "globals \<Rightarrow> kernel \<Rightarrow> fuse_context \<Rightarrow> stat \<Rightarrow> string \<Rightarrow> string \<Rightarrow> proc
     \<Rightarrow> (int \<times> proc) option" where
  "bru_rename g k ctx uninit old_path0 new_path0 p0 =
     (let p1 = set_caller_uid k ctx p0;
          old_path = make_relative old_path0;
          new_path = make_relative new_path0;
          old_ref_fd = get_fd_ref g old_path;
          new_ref_fd = get_fd_ref g new_path
      in case sys k (Renameat old_ref_fd old_path new_ref_fd new_path) p1 of (a, p2) \<Rightarrow>
         let ret = (if ret_of a < 0 then - errno p2 else 0) in
         if ret \<noteq> - EXDEV then Some (set_ret_errno ret p2, p2)
         else
          (case sys k (Unlinkat new_ref_fd new_path 0) p2 of (u, p3) \<Rightarrow>
           case sys k (Fstatat old_ref_fd old_path AT_SYMLINK_NOFOLLOW) p3 of (s, p4) \<Rightarrow>
           let old_path_stat = (case s of StatBuf st \<Rightarrow> st | _ \<Rightarrow> uninit) in
           case sys k (Openat old_ref_fd old_path O_RDONLY NoArg) p4 of (ofd, p5) \<Rightarrow>
           if ret_of ofd < 0 then Some (- errno p5, p5)
           else
            (case sys k (Openat new_ref_fd new_path (O_CREAT + O_WRONLY + O_TRUNC)
                           (StatArg old_path_stat)) p5 of (nfd, p6) \<Rightarrow>
             if ret_of nfd < 0 then Some (- errno p6, p6)
             else
              (case copy_loop k (ret_of ofd) (ret_of nfd) p6 of
                 None \<Rightarrow> None
               | Some (Some r, p7) \<Rightarrow> Some (r, p7)
               | Some (None, p7) \<Rightarrow>
                  (case sys k (Close (ret_of ofd)) p7 of (c1, p8) \<Rightarrow>
                   case sys k (Close (ret_of nfd)) p8 of (c2, p9) \<Rightarrow>
                   case sys k (Unlinkat old_ref_fd old_path 0) p9 of (v, p10) \<Rightarrow>
                     Some (set_ret_errno (ret_of v) p10, p10))))))"

definition bru_open ::
  "globals \<Rightarrow> kernel \<Rightarrow> fuse_context \<Rightarrow> string \<Rightarrow> fuse_file_info \<Rightarrow> proc
     \<Rightarrow> int \<times> fuse_file_info \<times> proc" where
  "bru_open g k ctx path0 fi p0 =
     (let p1 = set_caller_uid k ctx p0; path = make_relative path0 in
      case chdir_ref g k path p1 of
        (Some r, p2) \<Rightarrow> (r, fi, p2)
      | (None, p2) \<Rightarrow>
          (case sys k (Open path (flags fi)) p2 of (a, p3) \<Rightarrow>
             if ret_of a < 0 then (- errno p3, fi, p3)
             else (0, fi\<lparr>fh := word_of_int (ret_of a)\<rparr>, p3)))"

text \<open>
  \<open>bru_create\<close>: \<open>if ((fi->fh = creat(path, mode)) < 0) ret = -errno;\<close>.  The value of
  the assignment has the type of \<open>fi->fh\<close>, so the comparison with zero is made
  between unsigned 64-bit values.
\<close>

definition bru_create ::
  "globals \<Rightarrow> kernel \<Rightarrow> fuse_context \<Rightarrow> string \<Rightarrow> nat \<Rightarrow> fuse_file_info \<Rightarrow> proc
     \<Rightarrow> int \<times> fuse_file_info \<times> proc" where
  "bru_create g k ctx path0 mode fi p0 =
     (let p1 = set_caller_uid k ctx p0; path = make_relative path0 in
      case chdir_ref g k path p1 of
        (Some r, p2) \<Rightarrow> (r, fi, p2)
      | (None, p2) \<Rightarrow>
          (case sys k (Creat path mode) p2 of (a, p3) \<Rightarrow>
             let fi1 = fi\<lparr>fh := word_of_int (ret_of a)\<rparr> in
             if fh fi1 < 0 then (- errno p3, fi1, p3) else (0, fi1, p3)))"

text \<open>The operations on a handle.  None of them names \<open>path\<close> in its body.\<close>

definition bru_read ::
  "globals \<Rightarrow> kernel \<Rightarrow> fuse_context \<Rightarrow> string \<Rightarrow> nat \<Rightarrow> int \<Rightarrow> fuse_file_info \<Rightarrow> proc
     \<Rightarrow> int \<times> string \<times> proc" where
  "bru_read g k ctx path0 sz offset fi p0 =
     (let p1 = set_caller_uid k ctx p0 in
      case sys k (Pread (fd_of_fh (fh fi)) sz offset) p1 of (a, p2) \<Rightarrow>
        (set_ret_errno (count_of sz a) p2, bytes_of sz a, p2))"

definition bru_write ::
  "globals \<Rightarrow> kernel \<Rightarrow> fuse_context \<Rightarrow> string \<Rightarrow> string \<Rightarrow> nat \<Rightarrow> int \<Rightarrow> fuse_file_info
     \<Rightarrow> proc \<Rightarrow> int \<times> proc" where
  "bru_write g k ctx path0 buf sz offset fi p0 =
     (let p1 = set_caller_uid k ctx p0 in
      case sys k (Pwrite (fd_of_fh (fh fi)) (take sz buf) offset) p1 of (a, p2) \<Rightarrow>
        (set_ret_errno (ret_of a) p2, p2))"

definition bru_release ::
  "globals \<Rightarrow> kernel \<Rightarrow> fuse_context \<Rightarrow> string \<Rightarrow> fuse_file_info \<Rightarrow> proc \<Rightarrow> int \<times> proc" where
  "bru_release g k ctx path0 fi p0 =
     (let p1 = set_caller_uid k ctx p0 in
      case sys k (Close (fd_of_fh (fh fi))) p1 of (a, p2) \<Rightarrow>
        (set_ret_errno (ret_of a) p2, p2))"

definition bru_fsync ::
  "globals \<Rightarrow> kernel \<Rightarrow> fuse_context \<Rightarrow> string \<Rightarrow> int \<Rightarrow> fuse_file_info \<Rightarrow> proc
     \<Rightarrow> int \<times> proc" where
  "bru_fsync g k ctx path0 datasync fi p0 =
     (let p1 = set_caller_uid k ctx p0 in
      case (if datasync \<noteq> 0 then sys k (Fdatasync (fd_of_fh (fh fi))) p1
            else sys k (Fsync (fd_of_fh (fh fi))) p1) of (a, p2) \<Rightarrow>
        (set_ret_errno (ret_of a) p2, p2))"

definition bru_ftruncate ::
  "globals \<Rightarrow> kernel \<Rightarrow> fuse_context \<Rightarrow> string \<Rightarrow> int \<Rightarrow> fuse_file_info \<Rightarrow> proc
     \<Rightarrow> int \<times> proc" where
  "bru_ftruncate g k ctx path0 len fi p0 =
     (let p1 = set_caller_uid k ctx p0 in
      case sys k (Ftruncate (fd_of_fh (fh fi)) len) p1 of (a, p2) \<Rightarrow>
        (set_ret_errno (ret_of a) p2, p2))"

definition bru_fgetattr ::
  "globals \<Rightarrow> kernel \<Rightarrow> fuse_context \<Rightarrow> string \<Rightarrow> fuse_file_info \<Rightarrow> proc
     \<Rightarrow> int \<times> stat option \<times> proc" where
  "bru_fgetattr g k ctx path0 fi p0 =
     (let p1 = set_caller_uid k ctx p0 in
      case sys k (Fstat (fd_of_fh (fh fi))) p1 of (a, p2) \<Rightarrow>
        (set_ret_errno (ret_of a) p2,
         (case a of StatBuf st \<Rightarrow> Some st | _ \<Rightarrow> None), p2))"

section \<open>bru: reading a directory\<close>

text \<open>
  \<open>bru_readdir\<close> builds, for every name it reads, the string it compares with the
  list:
  \<open>if (path[1] == '\0') strcpy(full_path, dir->d_name);
   else { strcpy(full_path, path); strcat(full_path, "/"); strcat(full_path, dir->d_name); }\<close>
  where \<open>path\<close> is the path after \<open>MAKE_RELATIVE\<close>.  The string is modelled by its
  value.  The source writes it, with its terminator, into the bytes of
  \<open>full_path = malloc(path_len + strlen(dir->d_name))\<close>, where \<open>path_len\<close> is
  \<open>strlen(path)\<close>: \<open>full_path_alloc\<close> is the number of bytes allocated and
  \<open>full_path_bytes\<close> the number of bytes written.  \<open>bru_readdir\<close> is modelled as
  going on with the string it has built, also when it has written past the end
  of the allocation.
\<close>

definition full_path :: "string \<Rightarrow> string \<Rightarrow> string" where
  "full_path path d_name =
     (if char_at path 1 = NUL then d_name else path @ ''/'' @ d_name)"

definition full_path_alloc :: "string \<Rightarrow> string \<Rightarrow> nat" where
  "full_path_alloc path d_name = strlen path + strlen d_name"

definition full_path_bytes :: "string \<Rightarrow> string \<Rightarrow> nat" where
  "full_path_bytes path d_name = strlen (full_path path d_name) + 1"

text \<open>
  The test and the loop over the list as \<open>bru_readdir\<close> writes them, with the string
  built above as the first argument of \<open>strncmp\<close>.
\<close>

definition full_hit :: "globals \<Rightarrow> string \<Rightarrow> nat \<Rightarrow> bool" where
  "full_hit g full i =
     (if strncmp full (alt_files g ! i) (alt_file_lens g ! i) = 0
      then char_at full (alt_file_lens g ! i) = NUL
         \<or> char_at full (alt_file_lens g ! i) = CHR ''/''
      else False)"

function full_scan :: "globals \<Rightarrow> string \<Rightarrow> nat \<Rightarrow> bool" where
  "full_scan g full i =
     (if i < alt_file_count g
      then (if full_hit g full i then True else full_scan g full (i + 1))
      else False)"
  by pat_completeness auto
termination
  by (relation "measure (\<lambda>(g, full, i). alt_file_count g - i)") auto

declare full_scan.simps [simp del]

text \<open>
  The two \<open>while ((dir = readdir(d)) != NULL)\<close> loops, over the names the stream
  yields: the first hands a name to the filler when its string matches the list,
  the second when it does not.  The result of the filler is ignored.
\<close>

fun fill_alt :: "globals \<Rightarrow> kernel \<Rightarrow> string \<Rightarrow> string list \<Rightarrow> proc \<Rightarrow> proc" where
  "fill_alt g k path [] p = p"
| "fill_alt g k path (d_name # rest) p =
     (if strcmp d_name ''.'' = 0 \<or> strcmp d_name ''..'' = 0
      then fill_alt g k path rest p
      else if full_scan g (full_path path d_name) 0
      then fill_alt g k path rest (snd (sys k (Filler d_name) p))
      else fill_alt g k path rest p)"

fun fill_mount :: "globals \<Rightarrow> kernel \<Rightarrow> string \<Rightarrow> string list \<Rightarrow> proc \<Rightarrow> proc" where
  "fill_mount g k path [] p = p"
| "fill_mount g k path (d_name # rest) p =
     (if strcmp d_name ''.'' = 0 \<or> strcmp d_name ''..'' = 0
      then fill_mount g k path rest p
      else if full_scan g (full_path path d_name) 0
      then fill_mount g k path rest p
      else fill_mount g k path rest (snd (sys k (Filler d_name) p)))"

text \<open>One backend of \<open>bru_readdir\<close>: \<open>i = fchdir(fd); d = opendir(path); if (i >= 0 && d) ...\<close>\<close>

definition read_backend ::
  "(globals \<Rightarrow> kernel \<Rightarrow> string \<Rightarrow> string list \<Rightarrow> proc \<Rightarrow> proc)
     \<Rightarrow> globals \<Rightarrow> kernel \<Rightarrow> int \<Rightarrow> string \<Rightarrow> proc \<Rightarrow> bool \<times> proc" where
  "read_backend fill g k fd path p =
     (case sys k (Fchdir fd) p of (a, p1) \<Rightarrow>
      case sys k (Opendir path) p1 of (d, p2) \<Rightarrow>
        (case dir_of d of
           Some names \<Rightarrow>
             if ret_of a \<ge> 0
             then (True, snd (sys k Closedir (fill g k path names p2)))
             else (False, p2)
         | None \<Rightarrow> (False, p2)))"

text \<open>
  \<open>bru_readdir\<close>.  The arguments \<open>buf\<close>, \<open>offset\<close> and \<open>fi\<close> are not used but to pass
  \<open>buf\<close> on to the filler.
\<close>

definition bru_readdir ::
  "globals \<Rightarrow> kernel \<Rightarrow> fuse_context \<Rightarrow> string \<Rightarrow> proc \<Rightarrow> int \<times> proc" where
  "bru_readdir g k ctx path0 p0 =
     (let p1 = set_caller_uid k ctx p0;
          path = make_relative path0;
          p2 = snd (sys k (Filler ''.'') p1);
          p3 = snd (sys k (Filler ''..'') p2)
      in case read_backend fill_alt g k (alt_fd g) path p3 of (exists_alt, p4) \<Rightarrow>
         case read_backend fill_mount g k (mount_fd g) path p4 of (exists_mount, p5) \<Rightarrow>
           if \<not> (exists_alt \<or> exists_mount) then (- ENOENT, p5) else (0, p5))"

text \<open>The names handed to the filler, in order.\<close>

fun emitted :: "call list \<Rightarrow> string list" where
  "emitted [] = []"
| "emitted (Filler name # cs) = name # emitted cs"
| "emitted (c # cs) = emitted cs"

text \<open>
  What the specification asks of the union of a directory, in its own words: the
  current-directory and parent-directory entries, the children of the alternate
  backend whose qualified path (relative to the mount root) classifies as
  alternate, and those of the default backend whose qualified path does not.
  \<open>dir\<close> is the directory's path relative to the mount root, \<open>''.''\<close> for the root
  itself.  \<open>listed d\<close> is what a backend lists: the names of the stream, none when
  the backend could not open the directory.
\<close>

definition qualified_path :: "string \<Rightarrow> string \<Rightarrow> string" where
  "qualified_path dir name = (if dir = ''.'' then name else dir @ ''/'' @ name)"

definition children :: "string list \<Rightarrow> string set" where
  "children names = set names - {''.'', ''..''}"

definition listed :: "string list option \<Rightarrow> string list" where
  "listed d = (case d of None \<Rightarrow> [] | Some names \<Rightarrow> names)"

definition union_names :: "globals \<Rightarrow> string \<Rightarrow> string list \<Rightarrow> string list \<Rightarrow> string set" where
  "union_names g dir alt_names mount_names =
     {''.'', ''..''}
     \<union> {n \<in> children alt_names. alt_scan g (qualified_path dir n) 0}
     \<union> {n \<in> children mount_names. \<not> alt_scan g (qualified_path dir n) 0}"

section \<open>bru: start\<close>

text \<open>
  \<open>main\<close> of \<open>bru.c\<close> up to the call of \<open>fuse_main\<close>.  \<open>ruid\<close> is what \<open>getuid\<close> returns,
  \<open>r_mount\<close> and \<open>r_alt\<close> what the two calls of \<open>open\<close> return.  The test on an item
  reads \<open>alt_files[i][strlen(alt_files[i])-1]\<close>; for an empty item this is the byte
  stored in front of the string, which \<open>before i\<close> stands for.
\<close>

datatype diag =
    Usage
  | NotRoot
  | InsufficientArguments
  | NoMountPoint string
  | NoAltPoint string
  | Problematic string

datatype startup = Exit int diag | FuseMain globals

definition last_byte :: "char \<Rightarrow> string \<Rightarrow> char" where
  "last_byte b f = (if strlen f = 0 then b else f ! (strlen f - 1))"

text \<open>
  The test of the loop:
  \<open>alt_files[i][0] == '/' || alt_files[i][strlen(alt_files[i])-1] == '/'\<close>.
\<close>

definition rejected :: "(nat \<Rightarrow> char) \<Rightarrow> string list \<Rightarrow> nat \<Rightarrow> bool" where
  "rejected before files i =
     (char_at (files ! i) 0 = CHR ''/'' \<or> last_byte (before i) (files ! i) = CHR ''/'')"

function check_alt_files :: "(nat \<Rightarrow> char) \<Rightarrow> string list \<Rightarrow> nat \<Rightarrow> nat \<Rightarrow> string option" where
  "check_alt_files before files n i =
     (if i < n
      then (if rejected before files i
            then Some (files ! i)
            else check_alt_files before files n (i + 1))
      else None)"
  by pat_completeness auto
termination
  by (relation "measure (\<lambda>(before, files, n, i). n - i)") auto

declare check_alt_files.simps [simp del]

definition bru_main :: "(nat \<Rightarrow> char) \<Rightarrow> nat \<Rightarrow> int \<Rightarrow> int \<Rightarrow> string list \<Rightarrow> startup" where
  "bru_main before ruid r_mount r_alt argv =
     (let argc = length argv in
      if argc < 2 then Exit 1 Usage
      else if ruid \<noteq> 0 then Exit 1 NotRoot
      else if argc < 3 then Exit 1 InsufficientArguments
      else if r_mount = - 1 then Exit 1 (NoMountPoint (argv ! 1))
      else if r_alt = - 1 then Exit 1 (NoAltPoint (argv ! 2))
      else
        (case check_alt_files before (drop 3 argv) (argc - 3) 0 of
           Some f \<Rightarrow> Exit 1 (Problematic f)
         | None \<Rightarrow>
             FuseMain \<lparr>mount_fd = r_mount, alt_fd = r_alt, alt_files = drop 3 argv,
                       alt_file_count = argc - 3,
                       alt_file_lens = map strlen (take (argc - 3) (drop 3 argv))\<rparr>))"

section \<open>brc: the directory tree and the process\<close>

text \<open>
  \<open>brc.c\<close> walks directories.  A directory is a number; the file system gives, for
  every directory, the directory its entry \<open>..\<close> leads to and its device and inode
  numbers, and resolves an absolute path from a root directory.  The process has a
  root directory and a working directory, and the log of the steps of \<open>main\<close> it
  has taken.  \<open>chdir\<close> to \<open>..\<close> stays where it is in the root directory of the
  process, as the kernel has it.

  The source does not look at the result of \<open>chdir("/")\<close>, \<open>chdir("..")\<close>,
  \<open>lstat(".")\<close>, \<open>lstat("..")\<close> and \<open>chroot(".")\<close>.  Each of them may fail:
  \<open>fs_fails fs r d u\<close> tells whether the call \<open>u\<close> fails in a process with the root
  \<open>r\<close> and the working directory \<open>d\<close>.  A call that fails changes nothing: the
  process stays where it is, and the \<open>struct stat\<close> keeps what it held.
\<close>

definition CONFIGDIR :: string where
  "CONFIGDIR = ''/bedrock/etc/clients.d/''"

definition CLIENTDIR :: string where
  "CLIENTDIR = ''/bedrock/clients/''"

datatype ignored_call = Chdir_root | Chdir_parent | Lstat_here | Lstat_parent | Chroot_here

record fsys =
  fs_dotdot :: "nat \<Rightarrow> nat"
  fs_lstat :: "nat \<Rightarrow> stat"
  fs_lookup :: "nat \<Rightarrow> string \<Rightarrow> nat option"
  fs_fails :: "nat \<Rightarrow> nat \<Rightarrow> ignored_call \<Rightarrow> bool"

datatype step =
    EnsureCapsyschroot
  | EnsureConfigSecure string
  | BreakOutOfChroot
  | ChdirClientPath string
  | ChrootDot
  | ChdirCwdPath string
  | ChdirSlash
  | Execvp "string list"

record bproc =
  root :: nat
  cwd :: nat
  steps :: "step list"

definition took :: "step \<Rightarrow> bproc \<Rightarrow> bproc" where
  "took s p = p\<lparr>steps := steps p @ [s]\<rparr>"

definition up :: "fsys \<Rightarrow> nat \<Rightarrow> nat \<Rightarrow> nat" where
  "up fs r d = (if d = r then d else fs_dotdot fs d)"

text \<open>
  The three calls of the loop, in a process with the root \<open>r\<close>: \<open>chdir("..")\<close> from
  the working directory \<open>d\<close> gives the new working directory; \<open>lstat(".", &buf)\<close> and
  \<open>lstat("..", &buf)\<close> in the working directory \<open>d\<close> give what \<open>buf\<close> holds after
  the call.
\<close>

definition chdir_parent :: "fsys \<Rightarrow> nat \<Rightarrow> nat \<Rightarrow> nat" where
  "chdir_parent fs r d = (if fs_fails fs r d Chdir_parent then d else up fs r d)"

definition lstat_here :: "fsys \<Rightarrow> nat \<Rightarrow> nat \<Rightarrow> stat \<Rightarrow> stat" where
  "lstat_here fs r d buf = (if fs_fails fs r d Lstat_here then buf else fs_lstat fs d)"

definition lstat_parent :: "fsys \<Rightarrow> nat \<Rightarrow> nat \<Rightarrow> stat \<Rightarrow> stat" where
  "lstat_parent fs r d buf =
     (if fs_fails fs r d Lstat_parent then buf else fs_lstat fs (up fs r d))"

text \<open>
  \<open>lstat(path, &buf)\<close> of an absolute path, in a process with the root \<open>r\<close>: what
  \<open>buf\<close> holds after the call.  The call fails when there is no such path.
\<close>

definition lstat_path :: "fsys \<Rightarrow> nat \<Rightarrow> string \<Rightarrow> stat \<Rightarrow> stat" where
  "lstat_path fs r path buf =
     (case fs_lookup fs r path of Some d \<Rightarrow> fs_lstat fs d | None \<Rightarrow> buf)"

text \<open>
  The loop of \<open>break_out_of_chroot\<close>:
  \<open>do { chdir(".."); lstat(".", &stat_pwd); lstat("..", &stat_parent); }
   while (stat_pwd.st_ino != stat_parent.st_ino || stat_pwd.st_dev != stat_parent.st_dev);\<close>
  from the working directory \<open>d\<close>, in a process with root \<open>r\<close>, with what the two
  structs hold when the body starts.  It returns the directory it stops in, and
  nothing when it never stops.
\<close>

partial_function (option) ascend :: "fsys \<Rightarrow> nat \<Rightarrow> nat \<Rightarrow> stat \<Rightarrow> stat \<Rightarrow> nat option" where
  "ascend fs r d stat_pwd stat_parent =
     (if st_ino (lstat_here fs r (chdir_parent fs r d) stat_pwd)
           \<noteq> st_ino (lstat_parent fs r (chdir_parent fs r d) stat_parent)
       \<or> st_dev (lstat_here fs r (chdir_parent fs r d) stat_pwd)
           \<noteq> st_dev (lstat_parent fs r (chdir_parent fs r d) stat_parent)
      then ascend fs r (chdir_parent fs r d)
             (lstat_here fs r (chdir_parent fs r d) stat_pwd)
             (lstat_parent fs r (chdir_parent fs r d) stat_parent)
      else Some (chdir_parent fs r d))"

text \<open>
  A fixed point of the climb: a directory with the device and inode numbers of the
  directory its \<open>..\<close> leads to.
\<close>

definition same_as_parent :: "fsys \<Rightarrow> nat \<Rightarrow> nat \<Rightarrow> bool" where
  "same_as_parent fs r d =
     (st_ino (fs_lstat fs d) = st_ino (fs_lstat fs (up fs r d))
    \<and> st_dev (fs_lstat fs d) = st_dev (fs_lstat fs (up fs r d)))"

text \<open>
  \<open>break_out_of_chroot\<close>: \<open>chdir("/")\<close> puts the working directory in the root
  of the process; \<open>chroot(CONFIGDIR)\<close> moves the root (the process exits with 1
  when it fails); the loop climbs from the working directory, the two structs
  holding what the stack held; \<open>chroot(".")\<close> makes the directory it stops in the
  root.  The function returns or leaves the process through \<open>exit\<close>; it gives
  nothing when the loop never stops.  \<open>chdir_slash\<close> is the working directory
  after \<open>chdir("/")\<close>, the directory the climb starts from.
\<close>

datatype flow = Returns | Exits int

definition chdir_slash :: "fsys \<Rightarrow> bproc \<Rightarrow> nat" where
  "chdir_slash fs p = (if fs_fails fs (root p) (cwd p) Chdir_root then cwd p else root p)"

definition break_out_of_chroot :: "fsys \<Rightarrow> stat \<Rightarrow> stat \<Rightarrow> bproc \<Rightarrow> (flow \<times> bproc) option" where
  "break_out_of_chroot fs stat_pwd stat_parent p =
     (case fs_lookup fs (root p) CONFIGDIR of
        None \<Rightarrow> Some (Exits 1, p\<lparr>cwd := chdir_slash fs p\<rparr>)
      | Some c \<Rightarrow>
         (case ascend fs c (chdir_slash fs p) stat_pwd stat_parent of
            None \<Rightarrow> None
          | Some d \<Rightarrow>
              Some (Returns,
                    if fs_fails fs c d Chroot_here then p\<lparr>root := c, cwd := d\<rparr>
                    else p\<lparr>root := d, cwd := d\<rparr>)))"

text \<open>
  What \<open>main\<close> of \<open>brc.c\<close> reads from its surroundings.  \<open>ensure_config_secure\<close> is
  declared in \<open>libbedrock.h\<close>.  \<open>chroot_permitted\<close> and \<open>chroot_effective\<close> tell
  whether the two flags \<open>ensure_capsyschroot\<close> compares with \<open>CAP_SET\<close> hold that
  value.  \<open>uninit\<close> gives what each \<open>struct stat\<close> of the stack holds before the
  first call that writes it.
\<close>

text \<open>
  Modelled from the spec: \<open>ensure_config_secure\<close>, of which the sources hold the
  call only.  The specification has it as an externally provided predicate that
  verifies the configuration file; a rejected file is an error of the start, which
  aborts the process with a non-zero exit.  \<open>config_secure\<close> is that predicate.
\<close>

datatype local_stat = Stat_pwd | Stat_parent | Stat_real_root | Stat_client_path

record benv =
  filesys :: fsys
  chroot_permitted :: bool
  chroot_effective :: bool
  config_secure :: "string \<Rightarrow> bool"
  getcwd :: "string option"
  shell :: "string option"
  stat_ok :: "nat \<Rightarrow> string \<Rightarrow> bool"
  exec_ok :: "nat \<Rightarrow> string list \<Rightarrow> bool"
  uninit :: "local_stat \<Rightarrow> stat"

datatype outcome = Exited int | Executed "string list" | Hangs

text \<open>
  The end of \<open>main\<close>: \<open>chroot(".")\<close>, back to the working directory the process
  started in (or to the root), the choice of the command, \<open>execvp\<close>.
\<close>

definition run_command :: "benv \<Rightarrow> string list \<Rightarrow> string \<Rightarrow> bproc \<Rightarrow> outcome \<times> bproc" where
  "run_command env argv cwd_path p =
     (let p1 = took ChrootDot
                 (if fs_fails (filesys env) (root p) (cwd p) Chroot_here then p
                  else p\<lparr>root := cwd p\<rparr>);
          p2 = (case fs_lookup (filesys env) (root p1) cwd_path of
                  Some d \<Rightarrow> took (ChdirCwdPath cwd_path) (p1\<lparr>cwd := d\<rparr>)
                | None \<Rightarrow>
                    took ChdirSlash
                      (took (ChdirCwdPath cwd_path) (p1\<lparr>cwd := chdir_slash (filesys env) p1\<rparr>)));
          cmd = (if length argv > 2 then drop 2 argv
                 else (case shell env of
                         Some sh \<Rightarrow> if stat_ok env (root p2) sh then [sh] else [''/bin/sh'']
                       | None \<Rightarrow> [''/bin/sh'']));
          p3 = took (Execvp cmd) p2
      in if exec_ok env (root p3) cmd then (Executed cmd, p3) else (Exited (- 1), p3))"

text \<open>
  \<open>main\<close> of \<open>brc.c\<close>.  The source does not look at the result of
  \<open>lstat(".", &stat_real_root)\<close> and \<open>lstat(client_path, &stat_client_path)\<close>: a
  struct keeps what it held when the call fails.  A run whose climb never stops
  is the outcome \<open>Hangs\<close>, with the steps taken until then.
\<close>

definition brc_main :: "benv \<Rightarrow> string list \<Rightarrow> bproc \<Rightarrow> outcome \<times> bproc" where
  "brc_main env argv p0 =
     (if length argv < 2 then (Exited 1, p0)
      else
       (let client_path = CLIENTDIR @ argv ! 1;
            config_path = CONFIGDIR @ argv ! 1 @ ''.conf'';
            cwd_path = (case getcwd env of None \<Rightarrow> ''/'' | Some c \<Rightarrow> c);
            p1 = took EnsureCapsyschroot p0
        in if \<not> chroot_permitted env \<or> \<not> chroot_effective env then (Exited 1, p1)
           else
            (let p2 = (if strcmp (argv ! 1) ''pid1'' \<noteq> 0
                       then took (EnsureConfigSecure config_path) p1 else p1)
             in if strcmp (argv ! 1) ''pid1'' \<noteq> 0 \<and> \<not> config_secure env config_path
                then (Exited 1, p2)
                else
                 (case break_out_of_chroot (filesys env) (uninit env Stat_pwd)
                         (uninit env Stat_parent) (took BreakOutOfChroot p2) of
                    None \<Rightarrow> (Hangs, took BreakOutOfChroot p2)
                  | Some (Exits c, p3) \<Rightarrow> (Exited c, p3)
                  | Some (Returns, p3) \<Rightarrow>
                     (let stat_real_root =
                            lstat_here (filesys env) (root p3) (cwd p3) (uninit env Stat_real_root);
                          stat_client_path =
                            lstat_path (filesys env) (root p3) client_path
                              (uninit env Stat_client_path)
                      in if strcmp (argv ! 1) ''pid1'' \<noteq> 0
                            \<and> (st_dev stat_real_root \<noteq> st_dev stat_client_path
                               \<or> st_ino stat_real_root \<noteq> st_ino stat_client_path)
                         then (case fs_lookup (filesys env) (root p3) client_path of
                                 None \<Rightarrow> (Exited 1, took (ChdirClientPath client_path) p3)
                               | Some d \<Rightarrow>
                                   run_command env argv cwd_path
                                     (took (ChdirClientPath client_path) (p3\<lparr>cwd := d\<rparr>)))
                         else run_command env argv cwd_path p3)))))"

section \<open>Concrete requests\<close>

text \<open>
  The inputs the examples below run the operations on: the table \<open>{tmp}\<close> over the
  descriptors 3 (mount point) and 4 (alternate directory), a caller, a process that
  has made no call yet, and kernels that answer in a fixed way.
\<close>

definition table_tmp :: globals where
  "table_tmp = \<lparr>mount_fd = 3, alt_fd = 4, alt_files = [''tmp''],
                 alt_file_count = 1, alt_file_lens = [3]\<rparr>"

definition table_none :: globals where
  "table_none = \<lparr>mount_fd = 3, alt_fd = 4, alt_files = [],
                  alt_file_count = 0, alt_file_lens = []\<rparr>"

definition caller :: fuse_context where
  "caller = \<lparr>uid = 1000, gid = 1000\<rparr>"

definition fresh :: proc where
  "fresh = \<lparr>trace = [], errno = 0\<rparr>"

definition unset_handle :: fuse_file_info where
  "unset_handle = \<lparr>flags = 0, fh = 0\<rparr>"

text \<open>No directory can be opened.\<close>

definition k_absent :: kernel where
  "k_absent tr c = (case c of Opendir path \<Rightarrow> Fail ENOENT | _ \<Rightarrow> Ret 0)"

text \<open>
  The directory \<open>a\<close> exists under the mount point only and holds the one file
  \<open>tmp\<close>; \<open>lstat\<close> finds \<open>a/tmp\<close> there.
\<close>

definition k_dir_a :: kernel where
  "k_dir_a tr c =
     (case c of
        Opendir path \<Rightarrow>
          (if path = ''a'' \<and> tr \<noteq> [] \<and> last tr = Fchdir 3
           then Entries [''.'', ''..'', ''tmp''] else Fail ENOENT)
      | Lstat path \<Rightarrow>
          (if path = ''a/tmp'' \<and> tr \<noteq> [] \<and> last tr = Fchdir 3
           then StatBuf \<lparr>st_dev = 2049, st_ino = 77, st_mode = 33188\<rparr> else Fail ENOENT)
      | _ \<Rightarrow> Ret 0)"

text \<open>\<open>creat\<close> and \<open>open\<close> are refused with \<open>EACCES\<close>.\<close>

definition k_denied :: kernel where
  "k_denied tr c =
     (case c of Creat path mode \<Rightarrow> Fail EACCES | Open path fl \<Rightarrow> Fail EACCES | _ \<Rightarrow> Ret 0)"

text \<open>\<open>creat\<close> and \<open>open\<close> return the descriptor 5; a read through it yields \<open>abc\<close>.\<close>

definition k_opens :: kernel where
  "k_opens tr c =
     (case c of Creat path mode \<Rightarrow> Ret 5 | Open path fl \<Rightarrow> Ret 5
      | Pread fd n off \<Rightarrow> (if fd = 5 then Bytes ''abc'' else Fail 9)
      | _ \<Rightarrow> Ret 0)"

text \<open>Every symbolic link reads as the four bytes \<open>abcd\<close>.\<close>

definition k_link :: kernel where
  "k_link tr c = (case c of Readlink path n \<Rightarrow> Bytes ''abcd'' | _ \<Rightarrow> Ret 0)"

text \<open>
  \<open>renameat\<close> fails with \<open>EXDEV\<close>; the source is a regular file of mode 0644 that
  holds the bytes \<open>abc\<close>; no destination exists yet; the two files open as the
  descriptors 5 and 6.
\<close>

definition k_exdev :: kernel where
  "k_exdev tr c =
     (case c of
        Renameat ofd old nfd new \<Rightarrow> Fail EXDEV
      | Unlinkat fd path fl \<Rightarrow> (if path = ''var/x'' then Fail ENOENT else Ret 0)
      | Fstatat fd path fl \<Rightarrow> StatBuf \<lparr>st_dev = 2049, st_ino = 77, st_mode = 33188\<rparr>
      | Openat fd path fl arg \<Rightarrow> (if fl = O_RDONLY then Ret 5 else Ret 6)
      | Read fd n \<Rightarrow> (if Write 6 ''abc'' \<in> set tr then Bytes [] else Bytes ''abc'')
      | Write fd buf \<Rightarrow> Ret (int (length buf))
      | _ \<Rightarrow> Ret 0)"

text \<open>
  The arguments of a process on Linux lie one after the other, each with its
  terminator: the byte in front of an argument is the terminator of the one before.
\<close>

definition argv_gap :: "nat \<Rightarrow> char" where
  "argv_gap i = NUL"

text \<open>
  A directory tree for \<open>brc\<close>: the directory 0 is the real root \<open>/\<close>, 1 is \<open>/bedrock\<close>,
  2 is \<open>/bedrock/clients\<close>, 3 is \<open>/bedrock/clients/alpha\<close>; every directory \<open>d\<close> has
  the inode number \<open>d + 2\<close> on the device 8, and \<open>..\<close> leads from \<open>d\<close> to \<open>d - 1\<close> and
  from the real root to itself.  The configuration directory is found three
  levels below any root, the client \<open>alpha\<close> from the real root, and a home
  directory from any root; there is no client \<open>beta\<close>.  No call fails.  The
  process starts in a jail whose root is the client \<open>alpha\<close>.
\<close>

definition tree :: fsys where
  "tree = \<lparr>fs_dotdot = (\<lambda>d. d - 1),
           fs_lstat = (\<lambda>d. \<lparr>st_dev = 8, st_ino = d + 2, st_mode = 16877\<rparr>),
           fs_lookup = (\<lambda>r path.
              if path = CONFIGDIR then Some (r + 3)
              else if path = CLIENTDIR @ ''alpha'' then (if r = 0 then Some 3 else None)
              else if path = ''/home/user'' then Some (r + 5)
              else None),
           fs_fails = (\<lambda>r d u. False)\<rparr>"

definition jailed :: bproc where
  "jailed = \<lparr>root = 3, cwd = 8, steps = []\<rparr>"

definition blank :: stat where
  "blank = \<lparr>st_dev = 0, st_ino = 0, st_mode = 0\<rparr>"

definition host :: benv where
  "host = \<lparr>filesys = tree, chroot_permitted = True, chroot_effective = True,
           config_secure = (\<lambda>path. path = CONFIGDIR @ ''alpha.conf''),
           getcwd = Some ''/home/user'', shell = None,
           stat_ok = (\<lambda>r path. False), exec_ok = (\<lambda>r cmd. True),
           uninit = (\<lambda>v. blank)\<rparr>"

text \<open>
  The same tree with one call that fails: in \<open>locked\<close> the process may not enter
  \<open>/bedrock\<close>, so that \<open>chdir("..")\<close> fails in \<open>/bedrock/clients\<close>; in \<open>dim\<close> \<open>lstat("..")\<close>
  fails in \<open>/bedrock\<close>; in \<open>blind\<close> \<open>lstat(".")\<close> fails in the real root; in \<open>fenced\<close>
  \<open>chroot(".")\<close> fails in the real root.
\<close>

definition locked :: fsys where
  "locked = tree\<lparr>fs_fails := (\<lambda>r d u. d = 2 \<and> u = Chdir_parent)\<rparr>"

definition dim :: fsys where
  "dim = tree\<lparr>fs_fails := (\<lambda>r d u. d = 1 \<and> u = Lstat_parent)\<rparr>"

definition blind :: fsys where
  "blind = tree\<lparr>fs_fails := (\<lambda>r d u. d = 0 \<and> u = Lstat_here)\<rparr>"

definition fenced :: fsys where
  "fenced = tree\<lparr>fs_fails := (\<lambda>r d u. d = 0 \<and> u = Chroot_here)\<rparr>"

section \<open>Path routing\<close>

lemma of_char_NUL: "(of_char c = (0::nat)) = (c = NUL)"
proof -
  have "of_char NUL = (0::nat)" by (simp add: NUL_def)
  then show ?thesis by (metis of_char_eq_iff)
qed

lemma of_char_diff_zero: "(int (of_char c1) - int (of_char c2) = 0) = (c1 = c2)"
  by (simp add: of_char_eq_iff)

lemma strncmp_zero_iff:
  "cstring s1 \<Longrightarrow> cstring s2 \<Longrightarrow>
   (strncmp s1 s2 n = 0) = (take n s1 = take n s2)"
proof (induction s1 s2 n rule: strncmp.induct)
  case (3 c2 s2 n)
  then have "c2 \<noteq> NUL" by (auto simp: cstring_def)
  then show ?case by (simp add: of_char_NUL)
next
  case (4 c1 s1 n)
  then have "c1 \<noteq> NUL" by (auto simp: cstring_def)
  then show ?case by (simp add: of_char_NUL)
next
  case (5 c1 s1 c2 s2 n)
  then have "cstring s1" "cstring s2" by (auto simp: cstring_def)
  with 5 show ?case by (simp add: of_char_eq_iff)
qed simp_all

lemma strcmp_eq:
  assumes "cstring a" "cstring b"
  shows "(strcmp a b = 0) = (a = b)"
  using assms by (simp add: strcmp_def strncmp_zero_iff)

lemma strncmp_prefix:
  "cstring e \<Longrightarrow> cstring p \<Longrightarrow> (strncmp e p (length e) = 0) = prefix e p"
  by (simp add: strncmp_zero_iff prefix_def) (metis append_eq_conv_conj append_take_drop_id)

lemma char_at_NUL: "cstring p \<Longrightarrow> i \<le> length p \<Longrightarrow> (char_at p i = NUL) = (i = length p)"
  by (auto simp: char_at_def cstring_def dest: nth_mem)

lemma alt_scan_iff:
  "i \<le> alt_file_count g \<Longrightarrow>
   alt_scan g path i = (\<exists>j. i \<le> j \<and> j < alt_file_count g \<and> alt_hit g path j)"
proof (induction g path i rule: alt_scan.induct)
  case (1 g path i)
  show ?case
  proof (cases "i < alt_file_count g")
    case True
    show ?thesis
    proof (cases "alt_hit g path i")
      case True
      with \<open>i < alt_file_count g\<close> show ?thesis
        by (subst alt_scan.simps) auto
    next
      case False
      with True 1 have "alt_scan g path (i + 1) = (\<exists>j. i + 1 \<le> j \<and> j < alt_file_count g \<and> alt_hit g path j)"
        by simp
      with True False show ?thesis
        by (subst alt_scan.simps) (metis Suc_eq_plus1 Suc_leI le_eq_less_or_eq less_eq_Suc_le)
    qed
  next
    case False
    then show ?thesis by (subst alt_scan.simps) auto
  qed
qed

lemma alt_hit_iff:
  assumes "table_ok g" "i < alt_file_count g" "cstring (alt_files g ! i)" "cstring p"
  shows "alt_hit g p i =
     (prefix (alt_files g ! i) p \<and>
       (length p = length (alt_files g ! i) \<or> p ! length (alt_files g ! i) = CHR ''/''))"
proof -
  let ?e = "alt_files g ! i"
  from assms have len: "alt_file_lens g ! i = length ?e"
    by (simp add: table_ok_def strlen_def)
  show ?thesis
  proof (cases "prefix ?e p")
    case True
    then have le: "length ?e \<le> length p" by (simp add: prefix_length_le)
    show ?thesis
    proof (cases "length p = length ?e")
      case True
      with \<open>prefix ?e p\<close> assms show ?thesis
        by (simp add: alt_hit_def len strncmp_prefix char_at_def)
    next
      case False
      with le have "length ?e < length p" by simp
      moreover from this assms(4) have "p ! length ?e \<noteq> NUL"
        by (metis cstring_def nth_mem)
      ultimately show ?thesis using True False assms
        by (simp add: alt_hit_def len strncmp_prefix char_at_def)
    qed
  next
    case False
    with assms show ?thesis by (simp add: alt_hit_def len strncmp_prefix)
  qed
qed

lemma path_classification:
  assumes "table_ok g" and "\<forall>e \<in> set (alt_files g). cstring e" and "cstring p"
  shows "alt_scan g p 0 =
     (\<exists>e \<in> set (alt_files g). prefix e p \<and> (length p = length e \<or> p ! length e = CHR ''/''))"
proof -
  have n: "alt_file_count g = length (alt_files g)"
    using assms(1) by (simp add: table_ok_def)
  have "alt_scan g p 0 = (\<exists>j < alt_file_count g. alt_hit g p j)"
    by (simp add: alt_scan_iff)
  also have "\<dots> = (\<exists>j < length (alt_files g). prefix (alt_files g ! j) p \<and>
       (length p = length (alt_files g ! j) \<or> p ! length (alt_files g ! j) = CHR ''/''))"
    using assms n by (auto simp: alt_hit_iff)
  also have "\<dots> = (\<exists>e \<in> set (alt_files g). prefix e p \<and> (length p = length e \<or> p ! length e = CHR ''/''))"
    by (metis in_set_conv_nth)
  finally show ?thesis .
qed

text \<open>
  C1.  Path classification: for a table as \<open>bru_main\<close> leaves it and a path relative
  to the mount root, the loop of \<open>CHDIR_REF\<close> and \<open>GET_FD_REF\<close> finds a match (the
  path is routed to the alternate directory) exactly when some item of the table is
  a prefix of the path and the path either ends there or goes on with a slash;
  otherwise the path is routed to the mount point's directory.
\<close>

theorem routing_classification:
  assumes "table_ok g" and "\<forall>e \<in> set (alt_files g). cstring e" and "cstring p"
  shows "alt_scan g p 0 =
           (\<exists>e \<in> set (alt_files g).
              prefix e p \<and> (length p = length e \<or> p ! length e = CHR ''/''))
       \<and> get_fd_ref g p =
           (if \<exists>e \<in> set (alt_files g).
                 prefix e p \<and> (length p = length e \<or> p ! length e = CHR ''/'')
            then alt_fd g else mount_fd g)"
  using path_classification [OF assms] by (simp add: get_fd_ref_def)

text \<open>
  The examples of the specification, through the theorem: \<open>/a/b\<close> is alternate under
  the tables \<open>{a}\<close> and \<open>{a/b}\<close>, and is not under \<open>{a/bc}\<close> and \<open>{ab}\<close>.
\<close>

theorem routing_classification_witness:
  "alt_scan \<lparr>mount_fd = 3, alt_fd = 4, alt_files = [''a''],
             alt_file_count = 1, alt_file_lens = [1]\<rparr> (make_relative ''/a/b'') 0
 \<and> alt_scan \<lparr>mount_fd = 3, alt_fd = 4, alt_files = [''a/b''],
             alt_file_count = 1, alt_file_lens = [3]\<rparr> (make_relative ''/a/b'') 0
 \<and> \<not> alt_scan \<lparr>mount_fd = 3, alt_fd = 4, alt_files = [''a/bc''],
             alt_file_count = 1, alt_file_lens = [4]\<rparr> (make_relative ''/a/b'') 0
 \<and> \<not> alt_scan \<lparr>mount_fd = 3, alt_fd = 4, alt_files = [''ab''],
             alt_file_count = 1, alt_file_lens = [2]\<rparr> (make_relative ''/a/b'') 0"
proof -
  have p: "make_relative ''/a/b'' = ''a/b''"
    by (simp add: make_relative_def char_at_def NUL_def)
  have c: "cstring ''a/b''" by (simp add: cstring_def NUL_def)
  have 1: "alt_scan \<lparr>mount_fd = 3, alt_fd = 4, alt_files = [''a''],
             alt_file_count = 1, alt_file_lens = [1]\<rparr> ''a/b'' 0"
    using routing_classification [of "\<lparr>mount_fd = 3, alt_fd = 4, alt_files = [''a''],
             alt_file_count = 1, alt_file_lens = [1]\<rparr>" "''a/b''"] c
    by (simp add: table_ok_def strlen_def cstring_def NUL_def)
  have 2: "alt_scan \<lparr>mount_fd = 3, alt_fd = 4, alt_files = [''a/b''],
             alt_file_count = 1, alt_file_lens = [3]\<rparr> ''a/b'' 0"
    using routing_classification [of "\<lparr>mount_fd = 3, alt_fd = 4, alt_files = [''a/b''],
             alt_file_count = 1, alt_file_lens = [3]\<rparr>" "''a/b''"] c
    by (simp add: table_ok_def strlen_def cstring_def NUL_def)
  have 3: "\<not> alt_scan \<lparr>mount_fd = 3, alt_fd = 4, alt_files = [''a/bc''],
             alt_file_count = 1, alt_file_lens = [4]\<rparr> ''a/b'' 0"
    using routing_classification [of "\<lparr>mount_fd = 3, alt_fd = 4, alt_files = [''a/bc''],
             alt_file_count = 1, alt_file_lens = [4]\<rparr>" "''a/b''"] c
    by (simp add: table_ok_def strlen_def cstring_def NUL_def)
  have 4: "\<not> alt_scan \<lparr>mount_fd = 3, alt_fd = 4, alt_files = [''ab''],
             alt_file_count = 1, alt_file_lens = [2]\<rparr> ''a/b'' 0"
    using routing_classification [of "\<lparr>mount_fd = 3, alt_fd = 4, alt_files = [''ab''],
             alt_file_count = 1, alt_file_lens = [2]\<rparr>" "''a/b''"] c
    by (simp add: table_ok_def strlen_def cstring_def NUL_def)
  from 1 2 3 4 show ?thesis by (simp only: p simp_thms)
qed

section \<open>Reading a directory\<close>

lemma trace_sys: "trace (snd (sys k c p)) = trace p @ [c]"
  by (simp add: sys_def)

lemma fst_sys: "fst (sys k c p) = k (trace p) c"
  by (simp add: sys_def)

lemma trace_set_caller_uid:
  "trace (set_caller_uid k ctx p) = trace p @ [Setegid (gid ctx), Seteuid (uid ctx)]"
  by (simp add: set_caller_uid_def trace_sys)

lemma trace_fill_alt: "\<exists>r. trace (fill_alt g k path names p) = trace p @ r"
proof (induction names arbitrary: p)
  case Nil
  show ?case by simp
next
  case (Cons n names)
  obtain r where r: "trace (fill_alt g k path names (snd (sys k (Filler n) p))) = trace (snd (sys k (Filler n) p)) @ r"
    using Cons.IH by blast
  show ?case
    using Cons.IH [of p] r by (auto simp: trace_sys)
qed

lemma trace_fill_mount: "\<exists>r. trace (fill_mount g k path names p) = trace p @ r"
proof (induction names arbitrary: p)
  case Nil
  show ?case by simp
next
  case (Cons n names)
  obtain r where r: "trace (fill_mount g k path names (snd (sys k (Filler n) p))) = trace (snd (sys k (Filler n) p)) @ r"
    using Cons.IH by blast
  show ?case
    using Cons.IH [of p] r by (auto simp: trace_sys)
qed

lemma trace_read_backend:
  assumes ext: "\<And>names q. \<exists>r. trace (fill g k path names q) = trace q @ r"
  shows "\<exists>r. trace (snd (read_backend fill g k fd path p)) = trace p @ [Fchdir fd, Opendir path] @ r"
proof -
  obtain a p1 where s1: "sys k (Fchdir fd) p = (a, p1)" by (cases "sys k (Fchdir fd) p")
  obtain d p2 where s2: "sys k (Opendir path) p1 = (d, p2)" by (cases "sys k (Opendir path) p1")
  have t1: "trace p1 = trace p @ [Fchdir fd]" using s1 trace_sys [of k "Fchdir fd" p] by simp
  have t2: "trace p2 = trace p @ [Fchdir fd, Opendir path]"
    using s2 trace_sys [of k "Opendir path" p1] t1 by simp
  show ?thesis
  proof (cases "dir_of d")
    case None
    then show ?thesis by (simp add: read_backend_def s1 s2 t2)
  next
    case (Some names)
    obtain r where "trace (fill g k path names p2) = trace p2 @ r"
      using ext by blast
    with Some show ?thesis by (simp add: read_backend_def s1 s2 t2 trace_sys)
  qed
qed

lemma read_backend_none:
  assumes "\<forall>t. dir_of (k t (Opendir path)) = None"
  shows "read_backend fill g k fd path p = (False, snd (sys k (Opendir path) (snd (sys k (Fchdir fd) p))))"
proof -
  obtain a p1 where s1: "sys k (Fchdir fd) p = (a, p1)" by (cases "sys k (Fchdir fd) p")
  obtain d p2 where s2: "sys k (Opendir path) p1 = (d, p2)" by (cases "sys k (Opendir path) p1")
  have "d = k (trace p1) (Opendir path)" using s2 fst_sys [of k "Opendir path" p1] by simp
  then have "dir_of d = None" using assms by simp
  then show ?thesis by (simp add: read_backend_def s1 s2)
qed

text \<open>
  C10.  \<open>bru_readdir\<close> hands the entries \<open>.\<close> and \<open>..\<close> to the filler before it turns to
  either backend: in the calls it makes they come before the first \<open>fchdir\<close> and
  \<open>opendir\<close>.  So they are handed over also when neither backend can open the
  directory, where the operation makes no further call of the filler and returns
  \<open>-ENOENT\<close>.
\<close>

theorem readdir_dot_entries_first:
  "(\<exists>rest. trace (snd (bru_readdir g k ctx path p)) =
       trace p @ [Setegid (gid ctx), Seteuid (uid ctx), Filler ''.'', Filler ''..'',
                  Fchdir (alt_fd g), Opendir (make_relative path)] @ rest)
 \<and> ((\<forall>t. dir_of (k t (Opendir (make_relative path))) = None) \<longrightarrow>
       fst (bru_readdir g k ctx path p) = - ENOENT
     \<and> trace (snd (bru_readdir g k ctx path p)) =
         trace p @ [Setegid (gid ctx), Seteuid (uid ctx), Filler ''.'', Filler ''..'',
                    Fchdir (alt_fd g), Opendir (make_relative path),
                    Fchdir (mount_fd g), Opendir (make_relative path)]
     \<and> emitted (drop (length (trace p)) (trace (snd (bru_readdir g k ctx path p)))) = [''.'', ''..''])"
proof (intro conjI impI)
  let ?rel = "make_relative path"
  let ?p3 = "snd (sys k (Filler ''..'') (snd (sys k (Filler ''.'') (set_caller_uid k ctx p))))"
  have t3: "trace ?p3 = trace p @ [Setegid (gid ctx), Seteuid (uid ctx), Filler ''.'', Filler ''..'']"
    by (simp add: trace_sys trace_set_caller_uid)
  obtain ea p4 where ra: "read_backend fill_alt g k (alt_fd g) ?rel ?p3 = (ea, p4)"
    by (cases "read_backend fill_alt g k (alt_fd g) ?rel ?p3")
  obtain em p5 where rm: "read_backend fill_mount g k (mount_fd g) ?rel p4 = (em, p5)"
    by (cases "read_backend fill_mount g k (mount_fd g) ?rel p4")
  obtain r1 where r1: "trace p4 = trace ?p3 @ [Fchdir (alt_fd g), Opendir ?rel] @ r1"
    using trace_read_backend [of fill_alt g k ?rel "alt_fd g" ?p3, OF trace_fill_alt] ra by auto
  have "\<exists>r. trace p5 = trace p4 @ r"
    using trace_read_backend [of fill_mount g k ?rel "mount_fd g" p4, OF trace_fill_mount] rm
    by auto
  then obtain r2 where r2: "trace p5 = trace p4 @ r2" by blast
  have res: "snd (bru_readdir g k ctx path p) = p5"
    by (simp add: bru_readdir_def Let_def ra rm)
  show "\<exists>rest. trace (snd (bru_readdir g k ctx path p)) =
       trace p @ [Setegid (gid ctx), Seteuid (uid ctx), Filler ''.'', Filler ''..'',
                  Fchdir (alt_fd g), Opendir (make_relative path)] @ rest"
    by (simp add: res r2 r1 t3)
next
  let ?rel = "make_relative path"
  let ?p3 = "snd (sys k (Filler ''..'') (snd (sys k (Filler ''.'') (set_caller_uid k ctx p))))"
  assume none: "\<forall>t. dir_of (k t (Opendir ?rel)) = None"
  have t3: "trace ?p3 = trace p @ [Setegid (gid ctx), Seteuid (uid ctx), Filler ''.'', Filler ''..'']"
    by (simp add: trace_sys trace_set_caller_uid)
  have eq: "bru_readdir g k ctx path p =
      (- ENOENT, snd (sys k (Opendir ?rel) (snd (sys k (Fchdir (mount_fd g))
         (snd (sys k (Opendir ?rel) (snd (sys k (Fchdir (alt_fd g)) ?p3))))))))"
    by (simp add: bru_readdir_def Let_def read_backend_none [of k ?rel, OF none])
  show "fst (bru_readdir g k ctx path p) = - ENOENT" by (simp add: eq)
  show tr: "trace (snd (bru_readdir g k ctx path p)) =
         trace p @ [Setegid (gid ctx), Seteuid (uid ctx), Filler ''.'', Filler ''..'',
                    Fchdir (alt_fd g), Opendir (make_relative path),
                    Fchdir (mount_fd g), Opendir (make_relative path)]"
    by (simp add: eq trace_sys trace_set_caller_uid)
  show "emitted (drop (length (trace p)) (trace (snd (bru_readdir g k ctx path p)))) = [''.'', ''..'']"
    by (simp add: tr)
qed

theorem readdir_dot_entries_first_witness:
  "fst (bru_readdir table_tmp k_absent caller ''/nowhere'' fresh) = - 2
 \<and> emitted (trace (snd (bru_readdir table_tmp k_absent caller ''/nowhere'' fresh))) = [''.'', ''..'']"
proof -
  have "\<forall>t. dir_of (k_absent t (Opendir (make_relative ''/nowhere''))) = None"
    by (simp add: k_absent_def dir_of_def)
  with readdir_dot_entries_first [where k = k_absent and path = "''/nowhere''"
      and g = table_tmp and ctx = caller and p = fresh]
  show ?thesis by (simp add: ENOENT_def fresh_def)
qed

section \<open>The union of a directory\<close>

text \<open>
  What \<open>bru_readdir\<close> hands to the filler in general, for a kernel whose \<open>fchdir\<close>
  succeeds and whose answer to \<open>opendir\<close> depends on the directory changed to just
  before only.
\<close>

lemma emitted_append: "emitted (xs @ ys) = emitted xs @ emitted ys"
  by (induction xs rule: emitted.induct) simp_all

lemma cstring_dots: "cstring ''.''" "cstring ''..''"
  by (simp_all add: cstring_def NUL_def)

lemma fill_alt_emitted:
  "\<forall>n \<in> set names. cstring n \<Longrightarrow>
   emitted (trace (fill_alt g k path names p)) =
     emitted (trace p) @ filter (\<lambda>n. n \<noteq> ''.'' \<and> n \<noteq> ''..'' \<and> full_scan g (full_path path n) 0) names"
  by (induction names arbitrary: p)
     (simp_all add: strcmp_eq cstring_dots trace_sys emitted_append)

lemma fill_mount_emitted:
  "\<forall>n \<in> set names. cstring n \<Longrightarrow>
   emitted (trace (fill_mount g k path names p)) =
     emitted (trace p) @ filter (\<lambda>n. n \<noteq> ''.'' \<and> n \<noteq> ''..'' \<and> \<not> full_scan g (full_path path n) 0) names"
  by (induction names arbitrary: p)
     (simp_all add: strcmp_eq cstring_dots trace_sys emitted_append)

lemma full_scan_iff:
  "i \<le> alt_file_count g \<Longrightarrow>
   full_scan g full i = (\<exists>j. i \<le> j \<and> j < alt_file_count g \<and> full_hit g full j)"
proof (induction g full i rule: full_scan.induct)
  case (1 g full i)
  show ?case
  proof (cases "i < alt_file_count g")
    case True
    show ?thesis
    proof (cases "full_hit g full i")
      case True
      with \<open>i < alt_file_count g\<close> show ?thesis
        by (subst full_scan.simps) auto
    next
      case False
      with True 1 have "full_scan g full (i + 1) =
          (\<exists>j. i + 1 \<le> j \<and> j < alt_file_count g \<and> full_hit g full j)"
        by simp
      with True False show ?thesis
        by (subst full_scan.simps) (metis Suc_eq_plus1 le_eq_less_or_eq less_eq_Suc_le)
    qed
  next
    case False
    then show ?thesis by (subst full_scan.simps) auto
  qed
qed

lemma strncmp_sym:
  "cstring a \<Longrightarrow> cstring b \<Longrightarrow> (strncmp a b n = 0) = (strncmp b a n = 0)"
  by (auto simp: strncmp_zero_iff)

lemma full_hit_alt_hit:
  assumes "cstring (alt_files g ! i)" "cstring full"
  shows "full_hit g full i = alt_hit g full i"
  using strncmp_sym [OF assms(2,1), of "alt_file_lens g ! i"]
  by (simp add: full_hit_def alt_hit_def)

lemma full_scan_alt_scan:
  assumes "table_ok g" "\<forall>e \<in> set (alt_files g). cstring e" "cstring full"
  shows "full_scan g full 0 = alt_scan g full 0"
proof -
  have "\<And>j. j < alt_file_count g \<Longrightarrow> full_hit g full j = alt_hit g full j"
    using assms by (simp add: full_hit_alt_hit table_ok_def)
  then show ?thesis by (auto simp: full_scan_iff alt_scan_iff)
qed

lemma full_path_qualified:
  assumes "cstring rel" "rel = ''.'' \<or> 2 \<le> length rel"
  shows "full_path rel n = qualified_path rel n"
proof (cases "rel = ''.''")
  case True
  then show ?thesis by (simp add: full_path_def qualified_path_def char_at_def)
next
  case False
  with assms have len: "1 < length rel" by auto
  then have "rel ! 1 \<noteq> NUL" using assms(1) by (metis cstring_def nth_mem)
  with len False show ?thesis by (simp add: full_path_def qualified_path_def char_at_def)
qed

lemma cstring_full_path: "cstring rel \<Longrightarrow> cstring n \<Longrightarrow> cstring (full_path rel n)"
  by (auto simp: full_path_def cstring_def NUL_def)

lemma read_backend_listing:
  assumes "0 \<le> ret_of (k (trace p) (Fchdir fd))"
    and "dir_of (k (trace p @ [Fchdir fd]) (Opendir rel)) = d"
  shows "read_backend fill g k fd rel p =
     (case d of
        None \<Rightarrow> (False, snd (sys k (Opendir rel) (snd (sys k (Fchdir fd) p))))
      | Some names \<Rightarrow>
          (True, snd (sys k Closedir
             (fill g k rel names (snd (sys k (Opendir rel) (snd (sys k (Fchdir fd) p))))))))"
  using assms by (simp add: read_backend_def sys_def split: option.splits)

lemma emitted_backend:
  assumes "0 \<le> ret_of (k (trace p) (Fchdir fd))"
    and "dir_of (k (trace p @ [Fchdir fd]) (Opendir rel)) = d"
    and "\<And>names q. \<forall>n \<in> set names. cstring n \<Longrightarrow>
           emitted (trace (fill g k rel names q)) = emitted (trace q) @ filter keep names"
    and "\<forall>n \<in> set (listed d). cstring n"
  shows "emitted (trace (snd (read_backend fill g k fd rel p))) =
           emitted (trace p) @ filter keep (listed d)
       \<and> fst (read_backend fill g k fd rel p) = (d \<noteq> None)"
proof (cases d)
  case None
  then show ?thesis
    by (simp add: read_backend_listing [OF assms(1,2)] trace_sys emitted_append listed_def)
next
  case (Some names)
  with assms(4) have "\<forall>n \<in> set names. cstring n" by (simp add: listed_def)
  from assms(3) [OF this] Some show ?thesis
    by (simp add: read_backend_listing [OF assms(1,2)] trace_sys emitted_append listed_def)
qed

text \<open>
  The bytes of the string.  When \<open>path[1]\<close> is not the terminator the source
  copies \<open>path\<close>, the separator, the name and the terminator into an allocation of
  \<open>strlen(path) + strlen(d_name)\<close> bytes: two bytes more than it holds.  This is
  so for every child of every directory whose path relative to the mount root has
  two characters or more.  On the other branch the string fits.
\<close>

lemma full_path_overrun:
  "char_at path 1 \<noteq> NUL \<Longrightarrow> full_path_bytes path d_name = full_path_alloc path d_name + 2"
  by (simp add: full_path_bytes_def full_path_alloc_def full_path_def strlen_def)

lemma full_path_fits:
  "char_at path 1 = NUL \<Longrightarrow> path \<noteq> [] \<Longrightarrow>
   full_path_bytes path d_name \<le> full_path_alloc path d_name"
  by (cases path) (simp_all add: full_path_bytes_def full_path_alloc_def full_path_def strlen_def)

text \<open>
  For the root and for every directory whose path relative to the mount root has
  two characters or more, the names handed to the filler are those of the union
  the specification describes, none of them twice when neither backend lists a
  name twice; and the result is \<open>-ENOENT\<close> exactly when neither backend opens
  the directory.  For the directories of two characters or more this is the run
  in which the two bytes written past each allocation do no harm.  Directories
  directly under the mount root with a name of one character are not covered: see
  the directory \<open>/a\<close> below.
\<close>

lemma readdir_union:
  assumes tab: "table_ok g" "\<forall>e \<in> set (alt_files g). cstring e"
    and rel: "rel = make_relative path" "cstring rel" "rel = ''.'' \<or> 2 \<le> length rel"
    and chd: "\<forall>t fd. 0 \<le> ret_of (k t (Fchdir fd))"
    and la: "\<forall>t. dir_of (k (t @ [Fchdir (alt_fd g)]) (Opendir rel)) = A"
    and lm: "\<forall>t. dir_of (k (t @ [Fchdir (mount_fd g)]) (Opendir rel)) = M"
    and names: "\<forall>n \<in> set (listed A) \<union> set (listed M). cstring n"
  shows "\<exists>E. emitted (trace (snd (bru_readdir g k ctx path p))) = emitted (trace p) @ E
           \<and> set E = union_names g rel (listed A) (listed M)
           \<and> (distinct (listed A) \<and> distinct (listed M) \<longrightarrow> distinct E)
           \<and> fst (bru_readdir g k ctx path p) = (if A = None \<and> M = None then - ENOENT else 0)"
proof -
  let ?keepA = "\<lambda>n. n \<noteq> ''.'' \<and> n \<noteq> ''..'' \<and> full_scan g (full_path rel n) 0"
  let ?keepM = "\<lambda>n. n \<noteq> ''.'' \<and> n \<noteq> ''..'' \<and> \<not> full_scan g (full_path rel n) 0"
  let ?p3 = "snd (sys k (Filler ''..'') (snd (sys k (Filler ''.'') (set_caller_uid k ctx p))))"
  have e3: "emitted (trace ?p3) = emitted (trace p) @ [''.'', ''..'']"
    by (simp add: trace_sys trace_set_caller_uid emitted_append)
  obtain ea p4 where ra: "read_backend fill_alt g k (alt_fd g) rel ?p3 = (ea, p4)"
    by (cases "read_backend fill_alt g k (alt_fd g) rel ?p3")
  obtain em p5 where rm: "read_backend fill_mount g k (mount_fd g) rel p4 = (em, p5)"
    by (cases "read_backend fill_mount g k (mount_fd g) rel p4")
  have na: "\<forall>n \<in> set (listed A). cstring n" and nm: "\<forall>n \<in> set (listed M). cstring n"
    using names by auto
  from emitted_backend [of k ?p3 "alt_fd g" rel A fill_alt g ?keepA]
    chd la na fill_alt_emitted ra
  have a: "emitted (trace p4) = emitted (trace ?p3) @ filter ?keepA (listed A)" "ea = (A \<noteq> None)"
    by auto
  from emitted_backend [of k p4 "mount_fd g" rel M fill_mount g ?keepM]
    chd lm nm fill_mount_emitted rm
  have m: "emitted (trace p5) = emitted (trace p4) @ filter ?keepM (listed M)" "em = (M \<noteq> None)"
    by auto
  let ?E = "[''.'', ''..''] @ filter ?keepA (listed A) @ filter ?keepM (listed M)"
  have res: "bru_readdir g k ctx path p = (if \<not> (ea \<or> em) then - ENOENT else 0, p5)"
    using ra rm rel(1) by (simp add: bru_readdir_def Let_def)
  have scan: "\<And>n. cstring n \<Longrightarrow>
      full_scan g (full_path rel n) 0 = alt_scan g (qualified_path rel n) 0"
    using full_scan_alt_scan [OF tab cstring_full_path [OF rel(2)]]
      full_path_qualified [OF rel(2,3)] by simp
  have setA: "set (filter ?keepA (listed A)) =
      {n \<in> children (listed A). alt_scan g (qualified_path rel n) 0}"
    using na scan by (auto simp: children_def)
  have setM: "set (filter ?keepM (listed M)) =
      {n \<in> children (listed M). \<not> alt_scan g (qualified_path rel n) 0}"
    using nm scan by (auto simp: children_def)
  have "emitted (trace (snd (bru_readdir g k ctx path p))) = emitted (trace p) @ ?E"
    by (simp add: res m a e3)
  moreover have "set ?E = union_names g rel (listed A) (listed M)"
    using setA setM by (auto simp: union_names_def)
  moreover have "distinct (listed A) \<and> distinct (listed M) \<longrightarrow> distinct ?E"
    by auto
  moreover have "fst (bru_readdir g k ctx path p) = (if A = None \<and> M = None then - ENOENT else 0)"
    by (simp add: res a m)
  ultimately show ?thesis by blast
qed

section \<open>The operations on concrete requests\<close>

text \<open>Rules to run the operations step by step on a concrete kernel.\<close>

lemma sys_run:
  "sys k c \<lparr>trace = t, errno = e\<rparr> =
     (k t c, \<lparr>trace = t @ [c], errno = (case k t c of Fail x \<Rightarrow> x | _ \<Rightarrow> e)\<rparr>)"
  by (cases "k t c") (simp_all add: sys_def)

lemma strncmp_numeral:
  "strncmp [] [] (numeral v) = 0"
  "strncmp [] (c2 # s2) (numeral v) = - int (of_char c2)"
  "strncmp (c1 # s1) [] (numeral v) = int (of_char c1)"
  "strncmp (c1 # s1) (c2 # s2) (numeral v) =
     (if c1 = c2 then strncmp s1 s2 (pred_numeral v)
      else int (of_char c1) - int (of_char c2))"
  by (simp_all add: numeral_eq_Suc)

lemmas run_defs =
  set_caller_uid_def chdir_ref_def make_relative_def char_at_def NUL_def ret_of_def
  set_ret_errno_def Let_def bytes_of_def count_of_def dir_of_def caller_def fresh_def
  alt_scan.simps alt_hit_def table_tmp_def strncmp_numeral

lemma table_tmp_routes:
  "alt_scan table_tmp ''a/tmp'' 0 = False"
  "get_fd_ref table_tmp ''tmp/x'' = 4"
  "get_fd_ref table_tmp ''var/x'' = 3"
  by (simp_all add: get_fd_ref_def alt_scan.simps alt_hit_def table_tmp_def strncmp_numeral
      char_at_def NUL_def)

text \<open>
  C2.  The union of a directory whose name is one character long.  For \<open>/a\<close>
  the path after \<open>MAKE_RELATIVE\<close> is \<open>a\<close>, so \<open>path[1] == '\0'\<close> holds as it does
  for the root, and \<open>bru_readdir\<close> compares the bare names of the children with the
  table.  With the table \<open>{tmp}\<close> and the file \<open>a/tmp\<close> under the mount point only,
  the operation returns 0 and hands over \<open>.\<close> and \<open>..\<close> alone: \<open>tmp\<close> is hidden,
  though its qualified path \<open>a/tmp\<close> does not classify as alternate, the union the
  specification describes holds \<open>tmp\<close>, and \<open>bru_getattr\<close> finds \<open>/a/tmp\<close> under
  the mount point.
\<close>

theorem readdir_one_letter_directory:
  "bru_readdir table_tmp k_dir_a caller ''/a'' fresh =
     (0, \<lparr>trace = [Setegid 1000, Seteuid 1000, Filler ''.'', Filler ''..'', Fchdir 4,
                  Opendir ''a'', Fchdir 3, Opendir ''a'', Closedir], errno = 2\<rparr>)
 \<and> emitted (trace (snd (bru_readdir table_tmp k_dir_a caller ''/a'' fresh))) = [''.'', ''..'']
 \<and> alt_scan table_tmp (qualified_path ''a'' ''tmp'') 0 = False
 \<and> ''tmp'' \<in> union_names table_tmp ''a'' [] [''.'', ''..'', ''tmp'']
 \<and> bru_getattr table_tmp k_dir_a caller ''/a/tmp'' fresh =
     (0, Some \<lparr>st_dev = 2049, st_ino = 77, st_mode = 33188\<rparr>,
      \<lparr>trace = [Setegid 1000, Seteuid 1000, Fchdir 3, Lstat ''a/tmp''], errno = 0\<rparr>)"
proof -
  have dir: "bru_readdir table_tmp k_dir_a caller ''/a'' fresh =
     (0, \<lparr>trace = [Setegid 1000, Seteuid 1000, Filler ''.'', Filler ''..'', Fchdir 4,
                  Opendir ''a'', Fchdir 3, Opendir ''a'', Closedir], errno = 2\<rparr>)"
    by (simp add: bru_readdir_def read_backend_def run_defs sys_run full_scan.simps
        full_hit_def full_path_def strcmp_def k_dir_a_def ENOENT_def)
  have names: "emitted (trace (snd (bru_readdir table_tmp k_dir_a caller ''/a'' fresh))) = [''.'', ''..'']"
    by (simp add: dir)
  have route: "alt_scan table_tmp (qualified_path ''a'' ''tmp'') 0 = False"
    by (simp add: qualified_path_def table_tmp_routes)
  have spec: "''tmp'' \<in> union_names table_tmp ''a'' [] [''.'', ''..'', ''tmp'']"
    using route by (simp add: union_names_def children_def)
  have attr: "bru_getattr table_tmp k_dir_a caller ''/a/tmp'' fresh =
     (0, Some \<lparr>st_dev = 2049, st_ino = 77, st_mode = 33188\<rparr>,
      \<lparr>trace = [Setegid 1000, Seteuid 1000, Fchdir 3, Lstat ''a/tmp''], errno = 0\<rparr>)"
    by (simp add: bru_getattr_def run_defs sys_run k_dir_a_def)
  from dir names route spec attr show ?thesis by (intro conjI)
qed

text \<open>
  C3.  A rename that falls back to copying.  \<open>/tmp/x\<close> is routed to the alternate
  directory and \<open>/var/x\<close> to the mount point, and \<open>renameat\<close> fails with \<open>EXDEV\<close>.
  The operation returns 0 after these calls: it reads the source's attributes with
  \<open>fstatat\<close>, and then creates the destination with the whole structure as the last
  argument of \<open>openat\<close>, where the mode \<open>st_mode\<close> (here 0100644, that is 33188)
  belongs.  No call hands the captured mode to the kernel.
\<close>

theorem rename_fallback_mode_argument:
  "bru_rename table_tmp k_exdev caller \<lparr>st_dev = 0, st_ino = 0, st_mode = 0\<rparr>
      ''/tmp/x'' ''/var/x'' fresh =
     Some (0, \<lparr>trace =
         [Setegid 1000, Seteuid 1000, Renameat 4 ''tmp/x'' 3 ''var/x'',
          Unlinkat 3 ''var/x'' 0, Fstatat 4 ''tmp/x'' 256,
          Openat 4 ''tmp/x'' 0 NoArg,
          Openat 3 ''var/x'' 577 (StatArg \<lparr>st_dev = 2049, st_ino = 77, st_mode = 33188\<rparr>),
          Read 5 8192, Write 6 ''abc'', Read 5 8192, Close 5, Close 6,
          Unlinkat 4 ''tmp/x'' 0],
         errno = 2\<rparr>)"
  apply (simp add: bru_rename_def table_tmp_routes set_caller_uid_def make_relative_def
      char_at_def NUL_def caller_def fresh_def sys_run Let_def ret_of_def set_ret_errno_def
      k_exdev_def EXDEV_def ENOENT_def O_RDONLY_def O_WRONLY_def O_CREAT_def O_TRUNC_def
      AT_SYMLINK_NOFOLLOW_def)
  apply (subst copy_loop.simps)
  apply (simp add: sys_run k_exdev_def count_of_def bytes_of_def ret_of_def table_tmp_routes)
  apply (subst copy_loop.simps)
  apply (simp add: sys_run k_exdev_def count_of_def bytes_of_def ret_of_def set_ret_errno_def
      table_tmp_routes)
  done

text \<open>
  Whatever the kernel answers to \<open>creat\<close>, \<open>bru_create\<close> returns 0 once \<open>CHDIR_REF\<close>
  has passed: an unsigned value is never less than zero.
\<close>

lemma create_returns_zero:
  "fst (chdir_ref g k (make_relative path) (set_caller_uid k ctx p)) = None \<Longrightarrow>
   fst (bru_create g k ctx path mode fi p) = 0"
  by (auto simp: bru_create_def Let_def split: prod.splits option.splits)

text \<open>
  C4.  \<open>bru_create\<close> when \<open>creat\<close> fails.  The kernel refuses \<open>creat\<close> with \<open>EACCES\<close>
  (13): the operation returns 0, not \<open>-13\<close>, and leaves \<open>-1\<close> converted to
  \<open>uint64_t\<close> (all 64 bits set) in the handle.  \<open>bru_open\<close>, refused in the same
  way, returns \<open>-13\<close> and leaves the handle alone.
\<close>

theorem create_failure_returns_zero:
  "bru_create table_tmp k_denied caller ''/etc/x'' 420 unset_handle fresh =
     (0, \<lparr>flags = 0, fh = - 1\<rparr>,
      \<lparr>trace = [Setegid 1000, Seteuid 1000, Fchdir 3, Creat ''etc/x'' 420], errno = 13\<rparr>)
 \<and> unat (- 1 :: 64 word) = 18446744073709551615
 \<and> bru_open table_tmp k_denied caller ''/etc/x'' unset_handle fresh =
     (- 13, \<lparr>flags = 0, fh = 0\<rparr>,
      \<lparr>trace = [Setegid 1000, Seteuid 1000, Fchdir 3, Open ''etc/x'' 0], errno = 13\<rparr>)"
proof -
  have c: "bru_create table_tmp k_denied caller ''/etc/x'' 420 unset_handle fresh =
     (0, \<lparr>flags = 0, fh = - 1\<rparr>,
      \<lparr>trace = [Setegid 1000, Seteuid 1000, Fchdir 3, Creat ''etc/x'' 420], errno = 13\<rparr>)"
    by (simp add: bru_create_def run_defs sys_run k_denied_def unset_handle_def EACCES_def)
  have u: "unat (- 1 :: 64 word) = 18446744073709551615"
    by (simp add: unsigned_minus_1_eq_mask mask_eq_exp_minus_1)
  have o: "bru_open table_tmp k_denied caller ''/etc/x'' unset_handle fresh =
     (- 13, \<lparr>flags = 0, fh = 0\<rparr>,
      \<lparr>trace = [Setegid 1000, Seteuid 1000, Fchdir 3, Open ''etc/x'' 0], errno = 13\<rparr>)"
    by (simp add: bru_open_def run_defs sys_run k_denied_def unset_handle_def EACCES_def)
  from c u o show ?thesis by (intro conjI)
qed

text \<open>
  When the link fills the buffer, \<open>bru_readlink\<close> stores the terminator one byte
  past the buffer's end.
\<close>

lemma readlink_full_buffer:
  assumes "fst (chdir_ref g k (make_relative path) (set_caller_uid k ctx p)) = None"
    and "length buf = bufsize"
    and "count_of bufsize (fst (sys k (Readlink (make_relative path) bufsize)
            (snd (chdir_ref g k (make_relative path) (set_caller_uid k ctx p))))) = int bufsize"
  shows "fst (snd (bru_readlink g k ctx path buf bufsize p)) = Overrun bufsize"
  using assms
  by (auto simp: bru_readlink_def Let_def store_def count_of_def
      split: prod.splits option.splits answer.splits)

text \<open>
  C5.  \<open>bru_readlink\<close> with a buffer of four bytes and a link of four bytes:
  \<open>readlink\<close> returns 4, the test \<open>bytes_read <= bufsize\<close> passes and the terminator
  is stored at index 4, which is not within the four bytes of the buffer.  With a
  buffer of five bytes the same link is terminated at index 4, within the buffer.
\<close>

theorem readlink_terminator_overrun:
  "bru_readlink table_tmp k_link caller ''/etc/l'' ''????'' 4 fresh =
     (0, Overrun 4,
      \<lparr>trace = [Setegid 1000, Seteuid 1000, Fchdir 3, Readlink ''etc/l'' 4], errno = 0\<rparr>)
 \<and> bru_readlink table_tmp k_link caller ''/etc/l'' ''?????'' 5 fresh =
     (0, Buffer [CHR ''a'', CHR ''b'', CHR ''c'', CHR ''d'', NUL],
      \<lparr>trace = [Setegid 1000, Seteuid 1000, Fchdir 3, Readlink ''etc/l'' 5], errno = 0\<rparr>)"
  by (simp add: bru_readlink_def run_defs sys_run k_link_def store_def)

section \<open>Handles\<close>

lemma fd_of_fh_word_of_int:
  assumes "- (2 ^ 31) \<le> v" "v < 2 ^ 31"
  shows "fd_of_fh (word_of_int v) = v"
proof -
  have "(ucast (word_of_int v :: 64 word) :: 32 word) = word_of_int v"
    by (rule bit_word_eqI) (auto simp: bit_simps)
  moreover have "sint (word_of_int v :: 32 word) = v"
    using assms by (simp add: sint_sbintrunc' signed_take_bit_int_eq_self)
  ultimately show ?thesis by (simp add: fd_of_fh_def)
qed

lemma posix_ret_of:
  assumes "posix_kernel k"
  shows "- 1 \<le> ret_of (k t c)" and "ret_of (k t c) < 2 ^ 31"
  using assms [unfolded posix_kernel_def, rule_format, of t c]
  by (cases "k t c"; simp add: ret_of_def)+

lemma posix_failure:
  assumes "posix_kernel k" and "sys k c p = (a, p')" and "ret_of a < 0"
  shows "0 < errno p'"
proof -
  have a: "a = k (trace p) c" using assms(2) fst_sys [of k c p] by simp
  from assms(1) [unfolded posix_kernel_def, rule_format, of "trace p" c] assms(3) a
  obtain e where "k (trace p) c = Fail e" "0 < e"
    by (cases "k (trace p) c") (auto simp: ret_of_def)
  then show ?thesis using assms(2) by (auto simp: sys_def)
qed

lemma chdir_ref_cases:
  assumes "posix_kernel k" and "chdir_ref g k path p = (r, p')"
  shows "(r = None \<and> trace p' = trace p @ Fchdir (mount_fd g) #
                         (if alt_scan g path 0 then [Fchdir (alt_fd g)] else []))
       \<or> (\<exists>e. r = Some e \<and> e < 0)"
proof -
  obtain a p1 where s1: "sys k (Fchdir (mount_fd g)) p = (a, p1)"
    by (cases "sys k (Fchdir (mount_fd g)) p")
  have t1: "trace p1 = trace p @ [Fchdir (mount_fd g)]"
    using s1 trace_sys [of k "Fchdir (mount_fd g)" p] by simp
  show ?thesis
  proof (cases "ret_of a < 0")
    case True
    with posix_failure [OF assms(1) s1] assms(2) s1 show ?thesis
      by (auto simp: chdir_ref_def)
  next
    case False
    note na = this
    show ?thesis
    proof (cases "alt_scan g path 0")
      case False
      with na assms(2) s1 t1 show ?thesis by (auto simp: chdir_ref_def)
    next
      case True
      obtain b p2 where s2: "sys k (Fchdir (alt_fd g)) p1 = (b, p2)"
        by (cases "sys k (Fchdir (alt_fd g)) p1")
      have t2: "trace p2 = trace p @ [Fchdir (mount_fd g), Fchdir (alt_fd g)]"
        using s2 trace_sys [of k "Fchdir (alt_fd g)" p1] t1 by simp
      show ?thesis
      proof (cases "ret_of b < 0")
        case True
        with posix_failure [OF assms(1) s2] assms(2) s1 s2 na \<open>alt_scan g path 0\<close> show ?thesis
          by (auto simp: chdir_ref_def)
      next
        case False
        with assms(2) s1 s2 na t2 \<open>alt_scan g path 0\<close> show ?thesis
          by (auto simp: chdir_ref_def)
      qed
    qed
  qed
qed

lemma open_stores_descriptor:
  assumes "posix_kernel k" and "bru_open g k ctx path fi p = (0, fi', p')"
  shows "trace p' = trace p @ [Setegid (gid ctx), Seteuid (uid ctx), Fchdir (mount_fd g)]
            @ (if alt_scan g (make_relative path) 0 then [Fchdir (alt_fd g)] else [])
            @ [Open (make_relative path) (flags fi)]
       \<and> fd_of_fh (fh fi') = ret_of (k (butlast (trace p')) (Open (make_relative path) (flags fi)))"
proof -
  let ?rel = "make_relative path"
  let ?p1 = "set_caller_uid k ctx p"
  obtain r p2 where c: "chdir_ref g k ?rel ?p1 = (r, p2)" by (cases "chdir_ref g k ?rel ?p1")
  from chdir_ref_cases [OF assms(1) c] assms(2) c
  have r: "r = None" and t2: "trace p2 = trace ?p1 @ Fchdir (mount_fd g) #
                         (if alt_scan g ?rel 0 then [Fchdir (alt_fd g)] else [])"
    by (auto simp: bru_open_def Let_def)
  obtain a p3 where s: "sys k (Open ?rel (flags fi)) p2 = (a, p3)"
    by (cases "sys k (Open ?rel (flags fi)) p2")
  have a: "a = k (trace p2) (Open ?rel (flags fi))" using s by (auto simp: sys_def)
  have t3: "trace p3 = trace p2 @ [Open ?rel (flags fi)]" using s by (auto simp: sys_def)
  have nn: "\<not> ret_of a < 0"
  proof
    assume neg: "ret_of a < 0"
    from posix_failure [OF assms(1) s neg] neg assms(2) c r s show False
      by (simp add: bru_open_def Let_def)
  qed
  with assms(2) c r s have fi': "fi' = fi\<lparr>fh := word_of_int (ret_of a)\<rparr>" and p': "p' = p3"
    by (simp_all add: bru_open_def Let_def)
  have bl: "butlast (trace p') = trace p2" by (simp add: p' t3)
  have "fd_of_fh (fh fi') = ret_of a"
    using nn posix_ret_of(2) [OF assms(1), of "trace p2" "Open ?rel (flags fi)"] a
    by (simp add: fi' fd_of_fh_word_of_int)
  then have "fd_of_fh (fh fi') = ret_of (k (butlast (trace p')) (Open ?rel (flags fi)))"
    by (simp only: bl a)
  moreover have "trace p' = trace p @ [Setegid (gid ctx), Seteuid (uid ctx), Fchdir (mount_fd g)]
            @ (if alt_scan g ?rel 0 then [Fchdir (alt_fd g)] else [])
            @ [Open ?rel (flags fi)]"
    by (simp add: p' t3 t2 trace_set_caller_uid)
  ultimately show ?thesis by (rule conjI [rotated])
qed

lemma create_stores_descriptor:
  assumes "posix_kernel k" and "bru_create g k ctx path mode fi p = (0, fi', p')"
  shows "trace p' = trace p @ [Setegid (gid ctx), Seteuid (uid ctx), Fchdir (mount_fd g)]
            @ (if alt_scan g (make_relative path) 0 then [Fchdir (alt_fd g)] else [])
            @ [Creat (make_relative path) mode]
       \<and> fd_of_fh (fh fi') = ret_of (k (butlast (trace p')) (Creat (make_relative path) mode))"
proof -
  let ?rel = "make_relative path"
  let ?p1 = "set_caller_uid k ctx p"
  obtain r p2 where c: "chdir_ref g k ?rel ?p1 = (r, p2)" by (cases "chdir_ref g k ?rel ?p1")
  from chdir_ref_cases [OF assms(1) c] assms(2) c
  have r: "r = None" and t2: "trace p2 = trace ?p1 @ Fchdir (mount_fd g) #
                         (if alt_scan g ?rel 0 then [Fchdir (alt_fd g)] else [])"
    by (auto simp: bru_create_def Let_def)
  obtain a p3 where s: "sys k (Creat ?rel mode) p2 = (a, p3)"
    by (cases "sys k (Creat ?rel mode) p2")
  have a: "a = k (trace p2) (Creat ?rel mode)" using s by (auto simp: sys_def)
  have t3: "trace p3 = trace p2 @ [Creat ?rel mode]" using s by (auto simp: sys_def)
  from assms(2) c r s have fi': "fi' = fi\<lparr>fh := word_of_int (ret_of a)\<rparr>" and p': "p' = p3"
    by (simp_all add: bru_create_def Let_def)
  have bl: "butlast (trace p') = trace p2" by (simp add: p' t3)
  have "fd_of_fh (fh fi') = ret_of a"
    using posix_ret_of [OF assms(1), of "trace p2" "Creat ?rel mode"] a
    by (simp add: fi' fd_of_fh_word_of_int)
  then have "fd_of_fh (fh fi') = ret_of (k (butlast (trace p')) (Creat ?rel mode))"
    by (simp only: bl a)
  moreover have "trace p' = trace p @ [Setegid (gid ctx), Seteuid (uid ctx), Fchdir (mount_fd g)]
            @ (if alt_scan g ?rel 0 then [Fchdir (alt_fd g)] else [])
            @ [Creat ?rel mode]"
    by (simp add: p' t3 t2 trace_set_caller_uid)
  ultimately show ?thesis by (rule conjI [rotated])
qed

lemma handle_traces:
  "trace (snd (snd (bru_read g k ctx path sz off fi p))) =
     trace p @ [Setegid (gid ctx), Seteuid (uid ctx), Pread (fd_of_fh (fh fi)) sz off]"
  "trace (snd (bru_write g k ctx path buf sz off fi p)) =
     trace p @ [Setegid (gid ctx), Seteuid (uid ctx), Pwrite (fd_of_fh (fh fi)) (take sz buf) off]"
  "trace (snd (bru_fsync g k ctx path datasync fi p)) =
     trace p @ [Setegid (gid ctx), Seteuid (uid ctx),
                if datasync \<noteq> 0 then Fdatasync (fd_of_fh (fh fi)) else Fsync (fd_of_fh (fh fi))]"
  "trace (snd (bru_ftruncate g k ctx path len fi p)) =
     trace p @ [Setegid (gid ctx), Seteuid (uid ctx), Ftruncate (fd_of_fh (fh fi)) len]"
  "trace (snd (snd (bru_fgetattr g k ctx path fi p))) =
     trace p @ [Setegid (gid ctx), Seteuid (uid ctx), Fstat (fd_of_fh (fh fi))]"
  "trace (snd (bru_release g k ctx path fi p)) =
     trace p @ [Setegid (gid ctx), Seteuid (uid ctx), Close (fd_of_fh (fh fi))]"
  by (simp_all add: bru_read_def bru_write_def bru_fsync_def bru_ftruncate_def bru_fgetattr_def
      bru_release_def Let_def trace_set_caller_uid sys_def split: prod.splits)

text \<open>
  C6.  Handles are sticky.  Under a kernel that follows the convention of the system
  calls: an \<open>open\<close> or \<open>create\<close> that returns 0 has changed to the directory the
  path is routed to and made its one \<open>open\<close> or \<open>creat\<close> call there, and the
  descriptor read back from the handle is the value that call returned.  Every
  operation on a handle (read, write, fsync, truncate, stat, release), whatever the
  table and the path it is given, makes one call on the descriptor read from the
  handle, after setting the caller's identity: it changes to no directory and
  classifies no path.
\<close>

theorem handle_keeps_descriptor:
  assumes "posix_kernel k"
  shows "(bru_open g k ctx path fi p = (0, fi', p') \<longrightarrow>
            trace p' = trace p @ [Setegid (gid ctx), Seteuid (uid ctx), Fchdir (mount_fd g)]
              @ (if alt_scan g (make_relative path) 0 then [Fchdir (alt_fd g)] else [])
              @ [Open (make_relative path) (flags fi)]
          \<and> fd_of_fh (fh fi') =
              ret_of (k (butlast (trace p')) (Open (make_relative path) (flags fi))))
       \<and> (bru_create g k ctx path mode fi p = (0, fi'', p'') \<longrightarrow>
            trace p'' = trace p @ [Setegid (gid ctx), Seteuid (uid ctx), Fchdir (mount_fd g)]
              @ (if alt_scan g (make_relative path) 0 then [Fchdir (alt_fd g)] else [])
              @ [Creat (make_relative path) mode]
          \<and> fd_of_fh (fh fi'') =
              ret_of (k (butlast (trace p'')) (Creat (make_relative path) mode)))
       \<and> trace (snd (snd (bru_read g2 k ctx path2 sz off h q))) =
            trace q @ [Setegid (gid ctx), Seteuid (uid ctx), Pread (fd_of_fh (fh h)) sz off]
       \<and> trace (snd (bru_write g2 k ctx path2 buf sz off h q)) =
            trace q @ [Setegid (gid ctx), Seteuid (uid ctx),
                       Pwrite (fd_of_fh (fh h)) (take sz buf) off]
       \<and> trace (snd (bru_fsync g2 k ctx path2 datasync h q)) =
            trace q @ [Setegid (gid ctx), Seteuid (uid ctx),
                       if datasync \<noteq> 0 then Fdatasync (fd_of_fh (fh h))
                       else Fsync (fd_of_fh (fh h))]
       \<and> trace (snd (bru_ftruncate g2 k ctx path2 len h q)) =
            trace q @ [Setegid (gid ctx), Seteuid (uid ctx), Ftruncate (fd_of_fh (fh h)) len]
       \<and> trace (snd (snd (bru_fgetattr g2 k ctx path2 h q))) =
            trace q @ [Setegid (gid ctx), Seteuid (uid ctx), Fstat (fd_of_fh (fh h))]
       \<and> trace (snd (bru_release g2 k ctx path2 h q)) =
            trace q @ [Setegid (gid ctx), Seteuid (uid ctx), Close (fd_of_fh (fh h))]"
  using open_stores_descriptor [OF assms] create_stores_descriptor [OF assms]
  by (simp only: handle_traces) blast

text \<open>
  A file opened under \<open>/tmp\<close> with the table \<open>{tmp}\<close> is opened in the alternate
  directory as the descriptor 5; a later read through the handle, made with an
  empty table, is a \<open>pread\<close> on the descriptor 5.
\<close>

theorem handle_keeps_descriptor_witness:
  "bru_open table_tmp k_opens caller ''/tmp/x'' unset_handle fresh =
     (0, \<lparr>flags = 0, fh = 5\<rparr>,
      \<lparr>trace = [Setegid 1000, Seteuid 1000, Fchdir 3, Fchdir 4, Open ''tmp/x'' 0], errno = 0\<rparr>)
 \<and> fd_of_fh (fh \<lparr>flags = 0, fh = 5\<rparr>) = 5
 \<and> trace (snd (snd (bru_read table_none k_opens caller ''/tmp/x'' 3 0 \<lparr>flags = 0, fh = 5\<rparr> fresh))) =
     [Setegid 1000, Seteuid 1000, Pread 5 3 0]"
proof -
  have k: "posix_kernel k_opens"
    by (simp add: posix_kernel_def k_opens_def split: call.splits)
  have o: "bru_open table_tmp k_opens caller ''/tmp/x'' unset_handle fresh =
     (0, \<lparr>flags = 0, fh = 5\<rparr>,
      \<lparr>trace = [Setegid 1000, Seteuid 1000, Fchdir 3, Fchdir 4, Open ''tmp/x'' 0], errno = 0\<rparr>)"
    by (simp add: bru_open_def run_defs sys_run k_opens_def unset_handle_def)
  note h = handle_keeps_descriptor [OF k, where g = table_tmp and ctx = caller
      and path = "''/tmp/x''" and fi = unset_handle and p = fresh
      and fi' = "\<lparr>flags = 0, fh = 5\<rparr>"
      and p' = "\<lparr>trace = [Setegid 1000, Seteuid 1000, Fchdir 3, Fchdir 4, Open ''tmp/x'' 0], errno = 0\<rparr>"
      and ?g2.0 = table_none and ?path2.0 = "''/tmp/x''" and sz = 3 and off = 0
      and h = "\<lparr>flags = 0, fh = 5\<rparr>" and q = fresh]
  from h o have fd: "fd_of_fh (fh \<lparr>flags = 0, fh = 5\<rparr>) = 5"
    by (simp add: k_opens_def ret_of_def make_relative_def char_at_def NUL_def unset_handle_def)
  from h have rd: "trace (snd (snd (bru_read table_none k_opens caller ''/tmp/x'' 3 0 \<lparr>flags = 0, fh = 5\<rparr> fresh))) =
     trace fresh @ [Setegid (gid caller), Seteuid (uid caller), Pread (fd_of_fh (fh \<lparr>flags = 0, fh = 5\<rparr>)) 3 0]"
    by blast
  from o fd rd show ?thesis by (simp add: fresh_def caller_def)
qed

section \<open>The start of bru\<close>

lemma check_alt_files_None:
  "check_alt_files before files n i = None \<Longrightarrow> i \<le> j \<Longrightarrow> j < n \<Longrightarrow> \<not> rejected before files j"
proof (induction before files n i rule: check_alt_files.induct)
  case (1 before files n i)
  from "1.prems" have lt: "i < n" by simp
  from "1.prems"(1) lt have nr: "\<not> rejected before files i"
    by (subst (asm) check_alt_files.simps) (auto split: if_splits)
  from "1.prems"(1) lt nr have rest: "check_alt_files before files n (i + 1) = None"
    by (subst (asm) check_alt_files.simps) simp
  show ?case
  proof (cases "j = i")
    case True
    with nr show ?thesis by simp
  next
    case False
    with "1.prems" have "i + 1 \<le> j" by simp
    with "1.IH" [OF lt nr rest] "1.prems" show ?thesis by simp
  qed
qed

lemma check_alt_files_Some:
  "check_alt_files before files n i = Some f \<Longrightarrow>
   \<exists>j. i \<le> j \<and> j < n \<and> f = files ! j \<and> rejected before files j
       \<and> (\<forall>l. i \<le> l \<and> l < j \<longrightarrow> \<not> rejected before files l)"
proof (induction before files n i rule: check_alt_files.induct)
  case (1 before files n i)
  from "1.prems" have lt: "i < n"
    by (subst (asm) check_alt_files.simps) (auto split: if_splits)
  show ?case
  proof (cases "rejected before files i")
    case True
    with "1.prems" lt have "f = files ! i"
      by (subst (asm) check_alt_files.simps) simp
    with True lt show ?thesis by (intro exI [of _ i]) auto
  next
    case False
    with "1.prems" lt have rest: "check_alt_files before files n (i + 1) = Some f"
      by (subst (asm) check_alt_files.simps) simp
    from "1.IH" [OF lt False rest] obtain j where
      j: "i + 1 \<le> j" "j < n" "f = files ! j" "rejected before files j"
         "\<forall>l. i + 1 \<le> l \<and> l < j \<longrightarrow> \<not> rejected before files l"
      by blast
    have "\<forall>l. i \<le> l \<and> l < j \<longrightarrow> \<not> rejected before files l"
    proof (intro allI impI)
      fix l assume "i \<le> l \<and> l < j"
      then show "\<not> rejected before files l"
        using j(5) False by (cases "l = i") auto
    qed
    with j show ?thesis by (intro exI [of _ j]) auto
  qed
qed

lemma rejected_nonempty:
  "f \<noteq> [] \<Longrightarrow> files ! i = f \<Longrightarrow> rejected before files i = (hd f = CHR ''/'' \<or> last f = CHR ''/'')"
  by (cases f) (auto simp: rejected_def char_at_def last_byte_def strlen_def last_conv_nth)

lemma bru_main_cases:
  "bru_main before ruid r_mount r_alt argv =
     (if length argv < 2 then Exit 1 Usage
      else if ruid \<noteq> 0 then Exit 1 NotRoot
      else if length argv < 3 then Exit 1 InsufficientArguments
      else if r_mount = - 1 then Exit 1 (NoMountPoint (argv ! 1))
      else if r_alt = - 1 then Exit 1 (NoAltPoint (argv ! 2))
      else (case check_alt_files before (drop 3 argv) (length argv - 3) 0 of
              Some f \<Rightarrow> Exit 1 (Problematic f)
            | None \<Rightarrow> FuseMain \<lparr>mount_fd = r_mount, alt_fd = r_alt, alt_files = drop 3 argv,
                       alt_file_count = length argv - 3,
                       alt_file_lens = map strlen (drop 3 argv)\<rparr>))"
  by (simp add: bru_main_def Let_def split: option.splits)

text \<open>
  C9, as the specification states it, fails on an empty argument: the two tests of
  the loop look at the first byte of the item, which is its terminator, and at the
  byte in front of it, which on Linux is the terminator of the argument before.
  Neither is a slash, so the start goes on to \<open>fuse_main\<close> with the empty item in
  the table.
\<close>

theorem startup_accepts_empty_item:
  "bru_main argv_gap 0 3 4 [''bru'', ''/mnt'', ''/alt'', []] =
     FuseMain \<lparr>mount_fd = 3, alt_fd = 4, alt_files = [[]],
               alt_file_count = 1, alt_file_lens = [0]\<rparr>"
  by (simp add: bru_main_cases check_alt_files.simps rejected_def char_at_def last_byte_def
      strlen_def argv_gap_def NUL_def)

text \<open>
  C9, amended.  When the start reaches \<open>fuse_main\<close>, the table holds the arguments
  from the fourth on, with their count and lengths, and every item of it that is
  not empty neither begins nor ends with a slash.  When some argument from the
  fourth on is not empty and begins or ends with a slash, the start exits with
  status 1; and when the checks before the loop pass (root, both directories
  open), the diagnostic names the first item, in the order of the arguments, that
  the test of the loop rejects.
\<close>

theorem startup_table:
  "(bru_main before ruid r_mount r_alt argv = FuseMain g \<longrightarrow>
      table_ok g \<and> alt_files g = drop 3 argv
    \<and> (\<forall>e \<in> set (alt_files g). e \<noteq> [] \<longrightarrow> hd e \<noteq> CHR ''/'' \<and> last e \<noteq> CHR ''/''))
 \<and> ((\<exists>f \<in> set (drop 3 argv). f \<noteq> [] \<and> (hd f = CHR ''/'' \<or> last f = CHR ''/'')) \<longrightarrow>
      (\<exists>d. bru_main before ruid r_mount r_alt argv = Exit 1 d)
    \<and> (ruid = 0 \<and> r_mount \<noteq> - 1 \<and> r_alt \<noteq> - 1 \<longrightarrow>
        (\<exists>j < length (drop 3 argv).
           bru_main before ruid r_mount r_alt argv = Exit 1 (Problematic (drop 3 argv ! j))
         \<and> rejected before (drop 3 argv) j
         \<and> (\<forall>l < j. \<not> rejected before (drop 3 argv) l))))"
proof (intro conjI impI)
  assume ok: "bru_main before ruid r_mount r_alt argv = FuseMain g"
  then have none: "check_alt_files before (drop 3 argv) (length argv - 3) 0 = None"
    and g: "g = \<lparr>mount_fd = r_mount, alt_fd = r_alt, alt_files = drop 3 argv,
                       alt_file_count = length argv - 3,
                       alt_file_lens = map strlen (drop 3 argv)\<rparr>"
    by (auto simp: bru_main_cases split: if_splits option.splits)
  show "table_ok g" by (simp add: g table_ok_def)
  show "alt_files g = drop 3 argv" by (simp add: g)
  show "\<forall>e \<in> set (alt_files g). e \<noteq> [] \<longrightarrow> hd e \<noteq> CHR ''/'' \<and> last e \<noteq> CHR ''/''"
  proof (intro ballI impI)
    fix e assume e: "e \<in> set (alt_files g)" "e \<noteq> []"
    then obtain j where j: "j < length (drop 3 argv)" "drop 3 argv ! j = e"
      by (auto simp: g in_set_conv_nth)
    then have "\<not> rejected before (drop 3 argv) j"
      using check_alt_files_None [OF none, of j] by simp
    with e(2) j(2) show "hd e \<noteq> CHR ''/'' \<and> last e \<noteq> CHR ''/''"
      by (simp add: rejected_nonempty)
  qed
next
  assume bad: "\<exists>f \<in> set (drop 3 argv). f \<noteq> [] \<and> (hd f = CHR ''/'' \<or> last f = CHR ''/'')"
  then obtain j where j: "j < length (drop 3 argv)" "rejected before (drop 3 argv) j"
    by (auto simp: in_set_conv_nth rejected_nonempty)
  then have some: "check_alt_files before (drop 3 argv) (length argv - 3) 0 \<noteq> None"
    using check_alt_files_None [of before "drop 3 argv" "length argv - 3" 0 j] by auto
  then obtain f where f: "check_alt_files before (drop 3 argv) (length argv - 3) 0 = Some f"
    by auto
  show "\<exists>d. bru_main before ruid r_mount r_alt argv = Exit 1 d"
    by (simp add: bru_main_cases f)
  assume pre: "ruid = 0 \<and> r_mount \<noteq> - 1 \<and> r_alt \<noteq> - 1"
  from j(1) have len: "\<not> length argv < 3" "\<not> length argv < 2" by auto
  from check_alt_files_Some [OF f] obtain i where
    i: "i < length argv - 3" "f = drop 3 argv ! i" "rejected before (drop 3 argv) i"
       "\<forall>l. l < i \<longrightarrow> \<not> rejected before (drop 3 argv) l"
    by auto
  show "\<exists>j < length (drop 3 argv).
           bru_main before ruid r_mount r_alt argv = Exit 1 (Problematic (drop 3 argv ! j))
         \<and> rejected before (drop 3 argv) j
         \<and> (\<forall>l < j. \<not> rejected before (drop 3 argv) l)"
    using i pre len f by (intro exI [of _ i]) (simp add: bru_main_cases)
qed

theorem startup_table_witness:
  "table_ok \<lparr>mount_fd = 3, alt_fd = 4, alt_files = [''tmp'', ''etc/hosts''],
             alt_file_count = 2, alt_file_lens = [3, 9]\<rparr>
 \<and> bru_main argv_gap 0 3 4 [''bru'', ''/mnt'', ''/alt'', ''tmp'', ''etc/''] =
     Exit 1 (Problematic ''etc/'')"
proof -
  have run: "bru_main argv_gap 0 3 4 [''bru'', ''/mnt'', ''/alt'', ''tmp'', ''etc/hosts''] =
     FuseMain \<lparr>mount_fd = 3, alt_fd = 4, alt_files = [''tmp'', ''etc/hosts''],
               alt_file_count = 2, alt_file_lens = [3, 9]\<rparr>"
    by (simp add: bru_main_cases check_alt_files.simps rejected_def char_at_def last_byte_def
        strlen_def argv_gap_def NUL_def)
  have ok: "table_ok \<lparr>mount_fd = 3, alt_fd = 4, alt_files = [''tmp'', ''etc/hosts''],
             alt_file_count = 2, alt_file_lens = [3, 9]\<rparr>"
    using startup_table [of argv_gap 0 3 4 "[''bru'', ''/mnt'', ''/alt'', ''tmp'', ''etc/hosts'']"
        "\<lparr>mount_fd = 3, alt_fd = 4, alt_files = [''tmp'', ''etc/hosts''],
             alt_file_count = 2, alt_file_lens = [3, 9]\<rparr>"] run
    by blast
  have bad: "\<exists>f \<in> set (drop 3 [''bru'', ''/mnt'', ''/alt'', ''tmp'', ''etc/'']).
       f \<noteq> [] \<and> (hd f = CHR ''/'' \<or> last f = CHR ''/'')"
    by simp
  have r0: "\<not> rejected argv_gap [''tmp'', ''etc/''] 0"
    by (simp add: rejected_def char_at_def last_byte_def strlen_def)
  have pre: "(0::nat) = 0 \<and> (3::int) \<noteq> - 1 \<and> (4::int) \<noteq> - 1" by simp
  from startup_table [of argv_gap 0 3 4 "[''bru'', ''/mnt'', ''/alt'', ''tmp'', ''etc/'']"
      "\<lparr>mount_fd = 3, alt_fd = 4, alt_files = [], alt_file_count = 0, alt_file_lens = []\<rparr>"] bad pre
  have "\<exists>j < length (drop 3 [''bru'', ''/mnt'', ''/alt'', ''tmp'', ''etc/'']).
      bru_main argv_gap 0 3 4 [''bru'', ''/mnt'', ''/alt'', ''tmp'', ''etc/''] =
        Exit 1 (Problematic (drop 3 [''bru'', ''/mnt'', ''/alt'', ''tmp'', ''etc/''] ! j))
    \<and> rejected argv_gap (drop 3 [''bru'', ''/mnt'', ''/alt'', ''tmp'', ''etc/'']) j
    \<and> (\<forall>l < j. \<not> rejected argv_gap (drop 3 [''bru'', ''/mnt'', ''/alt'', ''tmp'', ''etc/'']) l)"
    by blast
  then obtain j where j: "j < 2"
    "bru_main argv_gap 0 3 4 [''bru'', ''/mnt'', ''/alt'', ''tmp'', ''etc/''] =
       Exit 1 (Problematic ([''tmp'', ''etc/''] ! j))"
    "rejected argv_gap [''tmp'', ''etc/''] j"
    by (clarsimp simp del: One_nat_def) (metis One_nat_def Suc_1)
  from j(1) j(3) r0 have "j = 1" by (cases j) auto
  with j(2) ok show ?thesis by simp
qed

section \<open>The escape of brc\<close>

lemma ascend_steps:
  assumes "same_as_parent fs r ((up fs r ^^ n) (up fs r d))"
    and "\<not> fs_fails fs r d Chdir_parent"
    and "\<forall>i < n. \<not> fs_fails fs r ((up fs r ^^ i) (up fs r d)) Chdir_parent"
    and "\<forall>i \<le> n. \<not> fs_fails fs r ((up fs r ^^ i) (up fs r d)) Lstat_here
                \<and> \<not> fs_fails fs r ((up fs r ^^ i) (up fs r d)) Lstat_parent"
  shows "\<exists>j \<le> n. ascend fs r d sp spa = Some ((up fs r ^^ j) (up fs r d))
        \<and> same_as_parent fs r ((up fs r ^^ j) (up fs r d))
        \<and> (\<forall>i < j. \<not> same_as_parent fs r ((up fs r ^^ i) (up fs r d)))"
  using assms
proof (induction n arbitrary: d sp spa)
  case 0
  then have "ascend fs r d sp spa = Some (up fs r d)"
    by (subst ascend.simps)
       (simp add: same_as_parent_def chdir_parent_def lstat_here_def lstat_parent_def)
  with 0 show ?case by simp
next
  case (Suc n)
  from Suc.prems(2) have cd: "chdir_parent fs r d = up fs r d"
    by (simp add: chdir_parent_def)
  from Suc.prems(4) have "\<not> fs_fails fs r ((up fs r ^^ 0) (up fs r d)) Lstat_here
      \<and> \<not> fs_fails fs r ((up fs r ^^ 0) (up fs r d)) Lstat_parent"
    by blast
  then have ls: "lstat_here fs r (up fs r d) sp = fs_lstat fs (up fs r d)"
      "lstat_parent fs r (up fs r d) spa = fs_lstat fs (up fs r (up fs r d))"
    by (simp_all add: lstat_here_def lstat_parent_def)
  show ?case
  proof (cases "same_as_parent fs r (up fs r d)")
    case True
    then have "ascend fs r d sp spa = Some (up fs r d)"
      by (subst ascend.simps) (simp add: same_as_parent_def cd ls)
    with True show ?thesis by (intro exI [of _ 0]) simp
  next
    case False
    then have step: "ascend fs r d sp spa =
        ascend fs r (up fs r d) (fs_lstat fs (up fs r d)) (fs_lstat fs (up fs r (up fs r d)))"
      by (subst ascend.simps) (auto simp: same_as_parent_def cd ls)
    from Suc.prems(1) have a1: "same_as_parent fs r ((up fs r ^^ n) (up fs r (up fs r d)))"
      by (simp add: funpow_swap1)
    from Suc.prems(3) have "\<not> fs_fails fs r ((up fs r ^^ 0) (up fs r d)) Chdir_parent"
      by blast
    then have a2: "\<not> fs_fails fs r (up fs r d) Chdir_parent" by simp
    have a3: "\<forall>i < n. \<not> fs_fails fs r ((up fs r ^^ i) (up fs r (up fs r d))) Chdir_parent"
    proof (intro allI impI)
      fix i assume "i < n"
      then have "Suc i < Suc n" by simp
      with Suc.prems(3) have "\<not> fs_fails fs r ((up fs r ^^ Suc i) (up fs r d)) Chdir_parent"
        by blast
      then show "\<not> fs_fails fs r ((up fs r ^^ i) (up fs r (up fs r d))) Chdir_parent"
        by (simp add: funpow_swap1)
    qed
    have a4: "\<forall>i \<le> n. \<not> fs_fails fs r ((up fs r ^^ i) (up fs r (up fs r d))) Lstat_here
                \<and> \<not> fs_fails fs r ((up fs r ^^ i) (up fs r (up fs r d))) Lstat_parent"
    proof (intro allI impI)
      fix i assume "i \<le> n"
      then have "Suc i \<le> Suc n" by simp
      with Suc.prems(4) have "\<not> fs_fails fs r ((up fs r ^^ Suc i) (up fs r d)) Lstat_here
          \<and> \<not> fs_fails fs r ((up fs r ^^ Suc i) (up fs r d)) Lstat_parent"
        by blast
      then show "\<not> fs_fails fs r ((up fs r ^^ i) (up fs r (up fs r d))) Lstat_here
          \<and> \<not> fs_fails fs r ((up fs r ^^ i) (up fs r (up fs r d))) Lstat_parent"
        by (simp add: funpow_swap1)
    qed
    from Suc.IH [OF a1 a2 a3 a4] obtain j where j: "j \<le> n"
      "ascend fs r (up fs r d) (fs_lstat fs (up fs r d)) (fs_lstat fs (up fs r (up fs r d)))
         = Some ((up fs r ^^ j) (up fs r (up fs r d)))"
      "same_as_parent fs r ((up fs r ^^ j) (up fs r (up fs r d)))"
      "\<forall>i < j. \<not> same_as_parent fs r ((up fs r ^^ i) (up fs r (up fs r d)))"
      by blast
    have "\<forall>i < Suc j. \<not> same_as_parent fs r ((up fs r ^^ i) (up fs r d))"
    proof (intro allI impI)
      fix i assume "i < Suc j"
      then show "\<not> same_as_parent fs r ((up fs r ^^ i) (up fs r d))"
        using False j(4) by (cases i) (auto simp: funpow_swap1)
    qed
    with j step show ?thesis
      by (intro exI [of _ "Suc j"]) (simp add: funpow_swap1)
  qed
qed

text \<open>
  A climb that makes no way: when \<open>chdir("..")\<close> fails and the two calls of \<open>lstat\<close>
  leave in the structs what they hold, numbers that differ, the loop never stops.
\<close>

lemma ascend_stuck:
  assumes "chdir_parent fs r d = d"
    and "lstat_here fs r d sp = sp"
    and "lstat_parent fs r d spa = spa"
    and "st_ino sp \<noteq> st_ino spa \<or> st_dev sp \<noteq> st_dev spa"
  shows "ascend fs r d sp spa = None"
proof (rule ccontr)
  assume "ascend fs r d sp spa \<noteq> None"
  then obtain y where y: "ascend fs r d sp spa = Some y" by blast
  have "\<not> (fs = fs \<and> r = r \<and> d = d \<and> sp = sp \<and> spa = spa)"
  proof (rule ascend.raw_induct [where P = "\<lambda>a b c e f z.
      \<not> (a = fs \<and> b = r \<and> c = d \<and> e = sp \<and> f = spa)", OF _ y])
    fix asc a b c e f z
    assume ih: "\<And>a b c e f z. asc a b c e f = Some z \<Longrightarrow>
        \<not> (a = fs \<and> b = r \<and> c = d \<and> e = sp \<and> f = spa)"
      and st: "(if st_ino (lstat_here a b (chdir_parent a b c) e)
                   \<noteq> st_ino (lstat_parent a b (chdir_parent a b c) f)
                \<or> st_dev (lstat_here a b (chdir_parent a b c) e)
                   \<noteq> st_dev (lstat_parent a b (chdir_parent a b c) f)
               then asc a b (chdir_parent a b c)
                      (lstat_here a b (chdir_parent a b c) e)
                      (lstat_parent a b (chdir_parent a b c) f)
               else Some (chdir_parent a b c)) = Some z"
    show "\<not> (a = fs \<and> b = r \<and> c = d \<and> e = sp \<and> f = spa)"
    proof
      assume eq: "a = fs \<and> b = r \<and> c = d \<and> e = sp \<and> f = spa"
      with st assms have "asc fs r d sp spa = Some z" by auto
      with ih show False by blast
    qed
  qed
  then show False by simp
qed

lemma tree_simps:
  "fs_dotdot tree d = d - 1"
  "fs_lstat tree d = \<lparr>st_dev = 8, st_ino = d + 2, st_mode = 16877\<rparr>"
  "fs_lookup tree r CONFIGDIR = Some (r + 3)"
  "fs_lookup tree r (CLIENTDIR @ ''alpha'') = (if r = 0 then Some 3 else None)"
  "fs_lookup tree r (CLIENTDIR @ ''beta'') = None"
  "fs_lookup tree r ''/home/user'' = Some (r + 5)"
  "fs_lookup tree r (CLIENTDIR @ ''pid1'') = None"
  "fs_fails tree r d u = False"
  by (simp_all add: tree_def CONFIGDIR_def CLIENTDIR_def)

text \<open>
  C7.  The climb of \<open>break_out_of_chroot\<close> ends, when no call on its way fails.
  Let \<open>chroot(CONFIGDIR)\<close> have succeeded, let \<open>s\<close> be the directory the climb
  starts from, and let the directory reached from \<open>s\<close> by \<open>n\<close> steps to the
  parent, \<open>n\<close> at least one, be a fixed point: a directory with the device and
  inode numbers of its parent.  Let \<open>chdir("..")\<close> succeed in the directories
  before it, and \<open>lstat(".")\<close>, \<open>lstat("..")\<close> and \<open>chroot(".")\<close> in the directories
  after \<open>s\<close> up to it.  Then the loop returns, whatever the two structs held,
  after at most \<open>n\<close> steps, in the first fixed point on the way, and that
  directory becomes the root and the working directory of the process.  When no
  directory before the \<open>n\<close>-th is a fixed point, it is the \<open>n\<close>-th.
\<close>

theorem escape_reaches_fixed_point:
  assumes "fs_lookup fs (root p) CONFIGDIR = Some c"
    and "s = chdir_slash fs p"
    and "1 \<le> n"
    and "same_as_parent fs c ((up fs c ^^ n) s)"
    and "\<forall>i. i < n \<longrightarrow> \<not> fs_fails fs c ((up fs c ^^ i) s) Chdir_parent"
    and "\<forall>i. 1 \<le> i \<and> i \<le> n \<longrightarrow>
           \<not> fs_fails fs c ((up fs c ^^ i) s) Lstat_here
         \<and> \<not> fs_fails fs c ((up fs c ^^ i) s) Lstat_parent
         \<and> \<not> fs_fails fs c ((up fs c ^^ i) s) Chroot_here"
  shows "(\<exists>j. 1 \<le> j \<and> j \<le> n
          \<and> break_out_of_chroot fs stat_pwd stat_parent p =
              Some (Returns, p\<lparr>root := (up fs c ^^ j) s, cwd := (up fs c ^^ j) s\<rparr>)
          \<and> same_as_parent fs c ((up fs c ^^ j) s)
          \<and> (\<forall>i. 1 \<le> i \<and> i < j \<longrightarrow> \<not> same_as_parent fs c ((up fs c ^^ i) s)))
       \<and> ((\<forall>i. 1 \<le> i \<and> i < n \<longrightarrow> \<not> same_as_parent fs c ((up fs c ^^ i) s)) \<longrightarrow>
            break_out_of_chroot fs stat_pwd stat_parent p =
              Some (Returns, p\<lparr>root := (up fs c ^^ n) s, cwd := (up fs c ^^ n) s\<rparr>))"
proof -
  obtain m where n: "n = Suc m" using assms(3) by (cases n) auto
  have sw: "\<And>i. (up fs c ^^ i) (up fs c s) = (up fs c ^^ Suc i) s"
    by (simp add: funpow_swap1)
  from assms(4) have h1: "same_as_parent fs c ((up fs c ^^ m) (up fs c s))"
    by (simp add: n funpow_swap1)
  from assms(5) n have "\<not> fs_fails fs c ((up fs c ^^ 0) s) Chdir_parent" by blast
  then have h2: "\<not> fs_fails fs c s Chdir_parent" by simp
  have h3: "\<forall>i < m. \<not> fs_fails fs c ((up fs c ^^ i) (up fs c s)) Chdir_parent"
  proof (intro allI impI)
    fix i assume "i < m"
    then have "Suc i < n" by (simp add: n)
    with assms(5) have "\<not> fs_fails fs c ((up fs c ^^ Suc i) s) Chdir_parent" by blast
    then show "\<not> fs_fails fs c ((up fs c ^^ i) (up fs c s)) Chdir_parent"
      unfolding sw .
  qed
  have h4: "\<forall>i \<le> m. \<not> fs_fails fs c ((up fs c ^^ i) (up fs c s)) Lstat_here
      \<and> \<not> fs_fails fs c ((up fs c ^^ i) (up fs c s)) Lstat_parent"
  proof (intro allI impI)
    fix i assume "i \<le> m"
    then have "1 \<le> Suc i \<and> Suc i \<le> n" by (simp add: n)
    with assms(6) have "\<not> fs_fails fs c ((up fs c ^^ Suc i) s) Lstat_here
        \<and> \<not> fs_fails fs c ((up fs c ^^ Suc i) s) Lstat_parent"
      by blast
    then show "\<not> fs_fails fs c ((up fs c ^^ i) (up fs c s)) Lstat_here
        \<and> \<not> fs_fails fs c ((up fs c ^^ i) (up fs c s)) Lstat_parent"
      unfolding sw .
  qed
  from ascend_steps [OF h1 h2 h3 h4, of stat_pwd stat_parent] obtain j where j: "j \<le> m"
    "ascend fs c s stat_pwd stat_parent = Some ((up fs c ^^ j) (up fs c s))"
    "same_as_parent fs c ((up fs c ^^ j) (up fs c s))"
    "\<forall>i < j. \<not> same_as_parent fs c ((up fs c ^^ i) (up fs c s))"
    by blast
  from j(1) have "1 \<le> Suc j \<and> Suc j \<le> n" by (simp add: n)
  with assms(6) have ch: "\<not> fs_fails fs c ((up fs c ^^ Suc j) s) Chroot_here" by blast
  have out: "break_out_of_chroot fs stat_pwd stat_parent p =
      Some (Returns, p\<lparr>root := (up fs c ^^ Suc j) s, cwd := (up fs c ^^ Suc j) s\<rparr>)"
    using j(2) assms(1) ch by (simp add: break_out_of_chroot_def sw assms(2) [symmetric])
  have first: "\<forall>i. 1 \<le> i \<and> i < Suc j \<longrightarrow> \<not> same_as_parent fs c ((up fs c ^^ i) s)"
  proof (intro allI impI)
    fix i assume i: "1 \<le> i \<and> i < Suc j"
    then obtain i' where "i = Suc i'" "i' < j" by (cases i) auto
    with j(4) sw show "\<not> same_as_parent fs c ((up fs c ^^ i) s)" by metis
  qed
  have part1: "\<exists>j. 1 \<le> j \<and> j \<le> n
          \<and> break_out_of_chroot fs stat_pwd stat_parent p =
              Some (Returns, p\<lparr>root := (up fs c ^^ j) s, cwd := (up fs c ^^ j) s\<rparr>)
          \<and> same_as_parent fs c ((up fs c ^^ j) s)
          \<and> (\<forall>i. 1 \<le> i \<and> i < j \<longrightarrow> \<not> same_as_parent fs c ((up fs c ^^ i) s))"
    using j(1) j(3) out first n sw by (intro exI [of _ "Suc j"]) simp
  have part2: "(\<forall>i. 1 \<le> i \<and> i < n \<longrightarrow> \<not> same_as_parent fs c ((up fs c ^^ i) s)) \<longrightarrow>
            break_out_of_chroot fs stat_pwd stat_parent p =
              Some (Returns, p\<lparr>root := (up fs c ^^ n) s, cwd := (up fs c ^^ n) s\<rparr>)"
  proof
    assume none: "\<forall>i. 1 \<le> i \<and> i < n \<longrightarrow> \<not> same_as_parent fs c ((up fs c ^^ i) s)"
    have "Suc j = n"
    proof (rule ccontr)
      assume "Suc j \<noteq> n"
      with j(1) n have "1 \<le> Suc j \<and> Suc j < n" by simp
      with none have "\<not> same_as_parent fs c ((up fs c ^^ Suc j) s)" by blast
      with j(3) sw show False by simp
    qed
    with out show "break_out_of_chroot fs stat_pwd stat_parent p =
              Some (Returns, p\<lparr>root := (up fs c ^^ n) s, cwd := (up fs c ^^ n) s\<rparr>)"
      by simp
  qed
  from part1 part2 show ?thesis by (rule conjI)
qed

text \<open>
  From the jail \<open>/bedrock/clients/alpha\<close> the climb passes \<open>/bedrock/clients\<close> and
  \<open>/bedrock\<close> and ends in the real root, the third directory on the way.
\<close>

theorem escape_reaches_fixed_point_witness:
  "break_out_of_chroot tree blank blank jailed = Some (Returns, \<lparr>root = 0, cwd = 0, steps = []\<rparr>)"
proof -
  have c: "fs_lookup tree (root jailed) CONFIGDIR = Some 6"
    by (simp add: tree_simps jailed_def)
  have s: "3 = chdir_slash tree jailed"
    by (simp add: chdir_slash_def tree_simps jailed_def)
  have up: "\<And>d. up tree 6 d = (if d = 6 then 6 else d - 1)"
    by (simp add: up_def tree_simps)
  have pw: "(up tree 6 ^^ 3) 3 = 0" "(up tree 6 ^^ 1) 3 = 2" "(up tree 6 ^^ 2) 3 = 1"
    by (simp_all add: numeral_3_eq_3 numeral_2_eq_2 up)
  have fixed: "same_as_parent tree 6 ((up tree 6 ^^ 3) 3)"
    by (simp add: pw) (simp add: same_as_parent_def up tree_simps)
  have cd: "\<forall>i. i < 3 \<longrightarrow> \<not> fs_fails tree 6 ((up tree 6 ^^ i) 3) Chdir_parent"
    by (simp add: tree_simps)
  have ls: "\<forall>i. 1 \<le> i \<and> i \<le> 3 \<longrightarrow>
           \<not> fs_fails tree 6 ((up tree 6 ^^ i) 3) Lstat_here
         \<and> \<not> fs_fails tree 6 ((up tree 6 ^^ i) 3) Lstat_parent
         \<and> \<not> fs_fails tree 6 ((up tree 6 ^^ i) 3) Chroot_here"
    by (simp add: tree_simps)
  have before: "\<forall>i. 1 \<le> i \<and> i < 3 \<longrightarrow> \<not> same_as_parent tree 6 ((up tree 6 ^^ i) 3)"
  proof (intro allI impI)
    fix i :: nat assume "1 \<le> i \<and> i < 3"
    then have "i = 1 \<or> i = 2" by auto
    then show "\<not> same_as_parent tree 6 ((up tree 6 ^^ i) 3)"
      using pw by (auto simp: same_as_parent_def up tree_simps)
  qed
  from escape_reaches_fixed_point [OF c s _ fixed cd ls, of blank blank] before
  have "break_out_of_chroot tree blank blank jailed =
      Some (Returns, jailed\<lparr>root := (up tree 6 ^^ 3) 3, cwd := (up tree 6 ^^ 3) 3\<rparr>)"
    by simp
  then show ?thesis by (simp add: pw) (simp add: jailed_def)
qed

text \<open>
  The fixed point alone does not make the climb end there.  In each of the four
  trees the real root, three steps above the jail, is a fixed point.  In \<open>locked\<close>
  \<open>chdir("..")\<close> fails in \<open>/bedrock/clients\<close>: the process stays there, the two
  structs hold the numbers of \<open>/bedrock/clients\<close> and \<open>/bedrock\<close> at every turn, and
  the loop never stops.  In \<open>dim\<close> \<open>lstat("..")\<close> fails in \<open>/bedrock\<close>: \<open>stat_parent\<close>
  keeps the numbers of \<open>/bedrock\<close>, which \<open>lstat(".")\<close> has just read into \<open>stat_pwd\<close>,
  and the loop stops in \<open>/bedrock\<close>, which is no fixed point and becomes the root.
  In \<open>blind\<close> \<open>lstat(".")\<close> fails in the real root: \<open>stat_pwd\<close> keeps the numbers of
  \<open>/bedrock\<close>, and the loop never stops.  In \<open>fenced\<close> the loop stops in the real
  root and \<open>chroot(".")\<close> fails: the root of the process stays the configuration
  directory.
\<close>

theorem escape_fails_with_failing_calls:
  "same_as_parent locked 6 ((up locked 6 ^^ 3) (chdir_slash locked jailed))
 \<and> fs_lookup locked (root jailed) CONFIGDIR = Some 6
 \<and> break_out_of_chroot locked blank blank jailed = None
 \<and> same_as_parent dim 6 ((up dim 6 ^^ 3) (chdir_slash dim jailed))
 \<and> fs_lookup dim (root jailed) CONFIGDIR = Some 6
 \<and> break_out_of_chroot dim blank blank jailed = Some (Returns, \<lparr>root = 1, cwd = 1, steps = []\<rparr>)
 \<and> \<not> same_as_parent dim 6 1
 \<and> same_as_parent blind 6 ((up blind 6 ^^ 3) (chdir_slash blind jailed))
 \<and> fs_lookup blind (root jailed) CONFIGDIR = Some 6
 \<and> break_out_of_chroot blind blank blank jailed = None
 \<and> same_as_parent fenced 6 ((up fenced 6 ^^ 3) (chdir_slash fenced jailed))
 \<and> fs_lookup fenced (root jailed) CONFIGDIR = Some 6
 \<and> break_out_of_chroot fenced blank blank jailed = Some (Returns, \<lparr>root = 6, cwd = 0, steps = []\<rparr>)"
proof -
  note st = tree_simps(2)
  have lk: "fs_lookup locked 3 CONFIGDIR = Some 6" "fs_lookup dim 3 CONFIGDIR = Some 6"
    "fs_lookup blind 3 CONFIGDIR = Some 6" "fs_lookup fenced 3 CONFIGDIR = Some 6"
    by (simp_all add: locked_def dim_def blind_def fenced_def tree_simps)
  have up: "\<And>fs d. up (tree\<lparr>fs_fails := fs\<rparr>) 6 d = (if d = 6 then 6 else d - 1)"
    by (simp add: up_def tree_simps)
  have pw: "\<And>fs. (up (tree\<lparr>fs_fails := fs\<rparr>) 6 ^^ 3) 3 = 0"
    by (simp add: numeral_3_eq_3 up)
  have fixed: "\<And>fs. same_as_parent (tree\<lparr>fs_fails := fs\<rparr>) 6 0"
    by (simp add: same_as_parent_def up st)
  have l1: "chdir_slash locked jailed = 3" "chdir_slash dim jailed = 3"
    "chdir_slash blind jailed = 3" "chdir_slash fenced jailed = 3"
    by (simp_all add: chdir_slash_def locked_def dim_def blind_def fenced_def jailed_def)
  have stuck: "ascend locked 6 2 \<lparr>st_dev = 8, st_ino = 4, st_mode = 16877\<rparr>
      \<lparr>st_dev = 8, st_ino = 3, st_mode = 16877\<rparr> = None"
    by (rule ascend_stuck)
       (simp_all add: chdir_parent_def lstat_here_def lstat_parent_def locked_def up st)
  have a1: "ascend locked 6 3 blank blank = None"
    apply (subst ascend.simps)
    apply (simp add: chdir_parent_def lstat_here_def lstat_parent_def locked_def up st)
    apply (simp add: stuck [unfolded locked_def] numeral_2_eq_2 [symmetric])
    done
  have a2: "ascend dim 6 3 blank blank = Some 1"
    apply (subst ascend.simps)
    apply (simp add: chdir_parent_def lstat_here_def lstat_parent_def dim_def up st)
    apply (subst ascend.simps)
    apply (simp add: chdir_parent_def lstat_here_def lstat_parent_def dim_def up st)
    done
  have stuck0: "ascend blind 6 0 \<lparr>st_dev = 8, st_ino = 3, st_mode = 16877\<rparr>
      \<lparr>st_dev = 8, st_ino = 2, st_mode = 16877\<rparr> = None"
    by (rule ascend_stuck)
       (simp_all add: chdir_parent_def lstat_here_def lstat_parent_def blind_def up st)
  have a4: "ascend blind 6 3 blank blank = None"
    apply (subst ascend.simps)
    apply (simp add: chdir_parent_def lstat_here_def lstat_parent_def blind_def up st)
    apply (subst ascend.simps)
    apply (simp add: chdir_parent_def lstat_here_def lstat_parent_def blind_def up st)
    apply (subst ascend.simps)
    apply (simp add: chdir_parent_def lstat_here_def lstat_parent_def blind_def up st)
    apply (simp add: stuck0 [unfolded blind_def] numeral_2_eq_2 [symmetric])
    done
  have a3: "ascend fenced 6 3 blank blank = Some 0"
    apply (subst ascend.simps)
    apply (simp add: chdir_parent_def lstat_here_def lstat_parent_def fenced_def up st)
    apply (subst ascend.simps)
    apply (simp add: chdir_parent_def lstat_here_def lstat_parent_def fenced_def up st)
    apply (subst ascend.simps)
    apply (simp add: chdir_parent_def lstat_here_def lstat_parent_def fenced_def up st)
    done
  have r: "root jailed = 3" by (simp add: jailed_def)
  have b1: "break_out_of_chroot locked blank blank jailed = None"
    by (simp add: break_out_of_chroot_def l1 r a1 lk)
  have b2: "break_out_of_chroot dim blank blank jailed = Some (Returns, \<lparr>root = 1, cwd = 1, steps = []\<rparr>)"
    by (simp add: break_out_of_chroot_def l1 r a2 lk) (simp add: dim_def jailed_def)
  have b4: "break_out_of_chroot blind blank blank jailed = None"
    by (simp add: break_out_of_chroot_def l1 r a4 lk)
  have b3: "break_out_of_chroot fenced blank blank jailed = Some (Returns, \<lparr>root = 6, cwd = 0, steps = []\<rparr>)"
    by (simp add: break_out_of_chroot_def l1 r a3 lk) (simp add: fenced_def jailed_def)
  have n: "\<not> same_as_parent dim 6 1"
    by (simp add: same_as_parent_def dim_def up st)
  have f1: "same_as_parent locked 6 ((up locked 6 ^^ 3) (chdir_slash locked jailed))"
    by (simp only: l1) (simp only: locked_def pw fixed)
  have f2: "same_as_parent dim 6 ((up dim 6 ^^ 3) (chdir_slash dim jailed))"
    by (simp only: l1) (simp only: dim_def pw fixed)
  have f4: "same_as_parent blind 6 ((up blind 6 ^^ 3) (chdir_slash blind jailed))"
    by (simp only: l1) (simp only: blind_def pw fixed)
  have f3: "same_as_parent fenced 6 ((up fenced 6 ^^ 3) (chdir_slash fenced jailed))"
    by (simp only: l1) (simp only: fenced_def pw fixed)
  have k1: "fs_lookup locked (root jailed) CONFIGDIR = Some 6"
    and k2: "fs_lookup dim (root jailed) CONFIGDIR = Some 6"
    and k4: "fs_lookup blind (root jailed) CONFIGDIR = Some 6"
    and k3: "fs_lookup fenced (root jailed) CONFIGDIR = Some 6"
    by (simp_all only: r lk)
  show ?thesis
    by (intro conjI) (fact f1 k1 b1 f2 k2 b2 n f4 k4 b4 f3 k3 b3)+
qed
section \<open>The client of brc\<close>







text \<open>The two runs from the jail: as \<open>pid1\<close> and as the client \<open>alpha\<close>.\<close>

lemma jail_escape:
  "root p = 3 \<Longrightarrow>
   break_out_of_chroot tree a b p = Some (Returns, p\<lparr>root := 0, cwd := 0\<rparr>)"
  apply (simp add: break_out_of_chroot_def chdir_slash_def tree_simps)
  apply (subst ascend.simps)
  apply (simp add: chdir_parent_def lstat_here_def lstat_parent_def up_def tree_simps)
  apply (subst ascend.simps)
  apply (simp add: chdir_parent_def lstat_here_def lstat_parent_def up_def tree_simps)
  apply (subst ascend.simps)
  apply (simp add: chdir_parent_def lstat_here_def lstat_parent_def up_def tree_simps)
  done

lemma pid1_run:
  "brc_main host [''brc'', ''pid1''] jailed =
     (Executed [''/bin/sh''],
      \<lparr>root = 0, cwd = 5,
         steps = [EnsureCapsyschroot, BreakOutOfChroot, ChrootDot,
                  ChdirCwdPath ''/home/user'', Execvp [''/bin/sh'']]\<rparr>)"
  by (simp add: brc_main_def Let_def host_def jailed_def took_def jail_escape tree_simps
      run_command_def strcmp_def)

lemma alpha_run:
  "brc_main host [''brc'', ''alpha''] jailed =
     (Executed [''/bin/sh''],
      \<lparr>root = 3, cwd = 8,
         steps = [EnsureCapsyschroot,
                  EnsureConfigSecure ''/bedrock/etc/clients.d/alpha.conf'',
                  BreakOutOfChroot, ChdirClientPath ''/bedrock/clients/alpha'',
                  ChrootDot, ChdirCwdPath ''/home/user'', Execvp [''/bin/sh'']]\<rparr>)"
  apply (simp add: brc_main_def Let_def host_def jailed_def took_def jail_escape
      run_command_def strcmp_def lstat_here_def lstat_path_def)
  apply (simp add: tree_simps [unfolded CONFIGDIR_def CLIENTDIR_def, simplified]
      CONFIGDIR_def CLIENTDIR_def run_command_def took_def Let_def)
  done


end
